theory Spec2Isabelle
  imports
    Main
    "HOL-Library.Word"
    "HOL-Library.Signed_Division"
    "HOL-Library.Char_ord"
    "HOL-Library.List_Lexorder"
    "HOL-Library.Multiset"
begin

section \<open>Go values used by the task service\<close>

text \<open>
  A Go \<^verbatim>\<open>string\<close> is a sequence of bytes, here a \<^typ>\<open>string\<close> (a list of 8-bit
  characters): \<^verbatim>\<open>len\<close> is \<^const>\<open>length\<close>, \<^verbatim>\<open>==\<close> is equality and \<^verbatim>\<open><\<close> is the
  bytewise lexicographic order. Go's \<^verbatim>\<open>int\<close> and \<^verbatim>\<open>int64\<close> are 64-bit two's complement
  words whose arithmetic wraps around. A \<^verbatim>\<open>uuid.UUID\<close> is 16 bytes. A \<^verbatim>\<open>time.Time\<close> is
  an instant of the process's monotonic clock, counted in nanoseconds.
\<close>

type_synonym int64 = "64 word"
type_synonym goint = "64 word"
type_synonym uuid = "128 word"
type_synonym time = nat

text \<open>
  A Go \<^verbatim>\<open>error\<close> made by \<^verbatim>\<open>errors.New\<close> carries its message. A run-time panic (an
  integer division by zero, a slice expression out of range) is not an error value: it
  unwinds the call, so it is a separate outcome.
\<close>

datatype error = Error string | Panic string

definition int64_div :: "int64 \<Rightarrow> int64 \<Rightarrow> error + int64" where
  \<comment> \<open>Go's \<^verbatim>\<open>/\<close> on int64: truncates towards zero, panics on a zero divisor.\<close>
  "int64_div a b =
     (if b = 0 then Inl (Panic ''integer divide by zero'')
      else Inr (word_of_int (sint a sdiv sint b)))"

definition slice_expr :: "'a list \<Rightarrow> goint \<Rightarrow> goint \<Rightarrow> error + 'a list" where
  \<comment> \<open>Go's \<^verbatim>\<open>xs[lo:hi]\<close> for \<^verbatim>\<open>hi\<close> at most \<^verbatim>\<open>len(xs)\<close>: panics unless \<^verbatim>\<open>0 <= lo <= hi\<close>.\<close>
  "slice_expr xs lo hi =
     (if 0 \<le> sint lo \<and> sint lo \<le> sint hi \<and> sint hi \<le> int (length xs)
      then Inr (take (nat (sint hi) - nat (sint lo)) (drop (nat (sint lo)) xs))
      else Inl (Panic ''slice bounds out of range''))"

definition len :: "'a list \<Rightarrow> goint" where
  "len xs = of_nat (length xs)"

subsection \<open>Package strings\<close>

definition RuneSelf :: nat where
  "RuneSelf = 0x80"

definition RuneError :: nat where
  "RuneError = 0xFFFD"

definition asciiSpace :: "char \<Rightarrow> bool" where
  \<comment> \<open>tab, line feed, vertical tab, form feed, carriage return, space\<close>
  "asciiSpace c \<longleftrightarrow> (of_char c :: nat) \<in> {0x09, 0x0A, 0x0B, 0x0C, 0x0D, 0x20}"

definition IsSpace :: "nat \<Rightarrow> bool" where
  \<comment> \<open>\<^verbatim>\<open>unicode.IsSpace\<close>: the Latin-1 spaces and the White_Space code points beyond.\<close>
  "IsSpace r \<longleftrightarrow>
     (if r \<le> 0xFF then r \<in> {0x09, 0x0A, 0x0B, 0x0C, 0x0D, 0x20, 0x85, 0xA0}
      else r = 0x1680 \<or> (0x2000 \<le> r \<and> r \<le> 0x200A) \<or> r = 0x2028 \<or> r = 0x2029
        \<or> r = 0x202F \<or> r = 0x205F \<or> r = 0x3000)"

definition contb :: "nat \<Rightarrow> nat \<Rightarrow> nat \<Rightarrow> bool" where
  \<comment> \<open>a second, third or fourth byte of a UTF-8 sequence inside its accepted range\<close>
  "contb lo hi b \<longleftrightarrow> lo \<le> b \<and> b \<le> hi"

fun firstInfo :: "nat \<Rightarrow> (nat \<times> nat \<times> nat) option" where
  \<comment> \<open>\<^verbatim>\<open>utf8.first\<close> and \<^verbatim>\<open>utf8.acceptRanges\<close>: for a lead byte, the length of its
      sequence and the accepted range of the second byte; \<^const>\<open>None\<close> for an invalid
      lead byte.\<close>
  "firstInfo s0 =
     (if s0 < 0xC2 then None
      else if s0 \<le> 0xDF then Some (2, 0x80, 0xBF)
      else if s0 = 0xE0 then Some (3, 0xA0, 0xBF)
      else if s0 \<le> 0xEC then Some (3, 0x80, 0xBF)
      else if s0 = 0xED then Some (3, 0x80, 0x9F)
      else if s0 \<le> 0xEF then Some (3, 0x80, 0xBF)
      else if s0 = 0xF0 then Some (4, 0x90, 0xBF)
      else if s0 \<le> 0xF3 then Some (4, 0x80, 0xBF)
      else if s0 = 0xF4 then Some (4, 0x80, 0x8F)
      else None)"

definition DecodeRuneInString :: "string \<Rightarrow> nat \<times> nat" where
  \<comment> \<open>\<^verbatim>\<open>utf8.DecodeRuneInString\<close>: the first code point and its width in bytes; an
      invalid or short sequence is \<^const>\<open>RuneError\<close> of width 1.\<close>
  "DecodeRuneInString s =
     (case s of
        [] \<Rightarrow> (RuneError, 0)
      | c0 # rest \<Rightarrow>
          let s0 = (of_char c0 :: nat) in
          if s0 < RuneSelf then (s0, 1)
          else (case firstInfo s0 of
              None \<Rightarrow> (RuneError, 1)
            | Some (sz, lo, hi) \<Rightarrow>
                if length s < sz then (RuneError, 1)
                else
                  let s1 = (of_char (s ! 1) :: nat) in
                  if \<not> contb lo hi s1 then (RuneError, 1)
                  else if sz \<le> 2 then ((s0 mod 32) * 64 + s1 mod 64, 2)
                  else
                    let s2 = (of_char (s ! 2) :: nat) in
                    if \<not> contb 0x80 0xBF s2 then (RuneError, 1)
                    else if sz \<le> 3 then ((s0 mod 16) * 4096 + (s1 mod 64) * 64 + s2 mod 64, 3)
                    else
                      let s3 = (of_char (s ! 3) :: nat) in
                      if \<not> contb 0x80 0xBF s3 then (RuneError, 1)
                      else ((s0 mod 8) * 262144 + (s1 mod 64) * 4096 + (s2 mod 64) * 64
                              + s3 mod 64, 4)))"

definition RuneStart :: "char \<Rightarrow> bool" where
  "RuneStart b \<longleftrightarrow> (of_char b :: nat) div 64 \<noteq> 2"

fun scanBack :: "string \<Rightarrow> nat \<Rightarrow> nat \<Rightarrow> nat" where
  \<comment> \<open>The backward loop of \<^verbatim>\<open>utf8.DecodeLastRuneInString\<close>, run for at most \<open>n\<close> steps
      from index \<open>start\<close>: the index of the nearest rune start, or where the steps ran
      out (0 when the loop leaves the string).\<close>
  "scanBack s start 0 = start"
| "scanBack s start (Suc n) =
     (if RuneStart (s ! start) then start
      else if start = 0 then 0
      else scanBack s (start - 1) n)"

definition DecodeLastRuneInString :: "string \<Rightarrow> nat \<times> nat" where
  \<comment> \<open>\<^verbatim>\<open>utf8.DecodeLastRuneInString\<close>: the last code point and its width. The limit
      \<open>lim\<close> is \<^verbatim>\<open>max(0, end - UTFMax)\<close>, which truncating subtraction gives.\<close>
  "DecodeLastRuneInString s =
     (let end = length s in
      if end = 0 then (RuneError, 0)
      else
        let r = (of_char (s ! (end - 1)) :: nat) in
        if r < RuneSelf then (r, 1)
        else
          let lim = end - 4;
              start = (if end < 2 then 0 else scanBack s (end - 2) (end - 1 - lim));
              res = DecodeRuneInString (drop start s) in
          if start + snd res \<noteq> end then (RuneError, 1) else res)"

function TrimLeftFunc :: "string \<Rightarrow> (nat \<Rightarrow> bool) \<Rightarrow> string" where
  "TrimLeftFunc s f =
     (if s = [] then []
      else
        let size = snd (DecodeRuneInString s) in
        if \<not> f (fst (DecodeRuneInString s)) then s
        else TrimLeftFunc (drop (max 1 size) s) f)"
  by pat_completeness auto
termination
  by (relation "measure (\<lambda>(s, f). length s)") auto

function lastIndexFunc :: "string \<Rightarrow> (nat \<Rightarrow> bool) \<Rightarrow> nat option" where
  \<comment> \<open>\<^verbatim>\<open>lastIndexFunc(s, f, false)\<close>: the byte index of the last code point that does
      not satisfy \<open>f\<close>; \<^const>\<open>None\<close> for Go's -1.\<close>
  "lastIndexFunc s f =
     (if s = [] then None
      else
        let size = snd (DecodeLastRuneInString s);
            i = length s - max 1 size in
        if \<not> f (fst (DecodeLastRuneInString s)) then Some i
        else lastIndexFunc (take i s) f)"
  by pat_completeness auto
termination
  by (relation "measure (\<lambda>(s, f). length s)") auto

definition TrimRightFunc :: "string \<Rightarrow> (nat \<Rightarrow> bool) \<Rightarrow> string" where
  "TrimRightFunc s f =
     (case lastIndexFunc s f of
        None \<Rightarrow> []
      | Some i \<Rightarrow>
          if RuneSelf \<le> of_char (s ! i)
          then take (i + snd (DecodeRuneInString (drop i s))) s
          else take (i + 1) s)"

definition TrimFunc :: "string \<Rightarrow> (nat \<Rightarrow> bool) \<Rightarrow> string" where
  "TrimFunc s f = TrimRightFunc (TrimLeftFunc s f) f"

function trimStop :: "string \<Rightarrow> string" where
  \<comment> \<open>The second loop of \<^verbatim>\<open>strings.TrimSpace\<close>: drop ASCII spaces from the end, and hand
      over to the Unicode path at the first byte outside ASCII.\<close>
  "trimStop s =
     (if s = [] then []
      else if RuneSelf \<le> of_char (last s) then TrimRightFunc s IsSpace
      else if asciiSpace (last s) then trimStop (butlast s)
      else s)"
  by pat_completeness auto
termination
  by (relation "measure length") auto

fun TrimSpace :: "string \<Rightarrow> string" where
  "TrimSpace [] = []"
| "TrimSpace (c # cs) =
     (if RuneSelf \<le> of_char c then TrimFunc (c # cs) IsSpace
      else if asciiSpace c then TrimSpace cs
      else trimStop (c # cs))"

definition HasPrefix :: "string \<Rightarrow> string \<Rightarrow> bool" where
  "HasPrefix s prefix \<longleftrightarrow> length prefix \<le> length s \<and> take (length prefix) s = prefix"

fun Contains :: "string \<Rightarrow> string \<Rightarrow> bool" where
  \<comment> \<open>\<^verbatim>\<open>strings.Contains\<close>: \<open>substr\<close> occurs in \<open>s\<close> as a run of consecutive bytes.\<close>
  "Contains [] substr = (substr = [])"
| "Contains (c # cs) substr = (HasPrefix (c # cs) substr \<or> Contains cs substr)"

definition asciiLower :: "char \<Rightarrow> char" where
  "asciiLower c =
     (if (65::nat) \<le> of_char c \<and> of_char c \<le> (90::nat) then char_of (of_char c + (32::nat))
      else c)"

definition ToLower :: "(string \<Rightarrow> string) \<Rightarrow> string \<Rightarrow> string" where
  \<comment> \<open>\<^verbatim>\<open>strings.ToLower\<close>. A string of ASCII bytes has its letters A-Z mapped to a-z. A
      string with a byte outside ASCII goes through \<^verbatim>\<open>Map(unicode.ToLower, s)\<close>, whose
      case tables belong to the Go library: that path is the parameter \<open>unicodeLower\<close>.\<close>
  "ToLower unicodeLower s =
     (if \<forall>c \<in> set s. (of_char c :: nat) < RuneSelf then map asciiLower s
      else unicodeLower s)"


subsection \<open>Package strconv\<close>

definition isDigit :: "char \<Rightarrow> bool" where
  "isDigit c \<longleftrightarrow> (48::nat) \<le> of_char c \<and> of_char c \<le> (57::nat)"

fun digitsValue :: "string \<Rightarrow> int \<Rightarrow> int option" where
  \<comment> \<open>The digit loop: \<^verbatim>\<open>n = n*10 + int(ch - '0')\<close>, a syntax error at any other byte.
      The value is kept exact; the range check comes after the loop.\<close>
  "digitsValue [] n = Some n"
| "digitsValue (ch # rest) n =
     (if isDigit ch then digitsValue rest (n * 10 + (of_char ch - 48)) else None)"

definition Atoi :: "string \<Rightarrow> error + goint" where
  \<comment> \<open>\<^verbatim>\<open>strconv.Atoi\<close> on a 64-bit platform: an optional sign, then one or more decimal
      digits; a value outside int64 is a range error.\<close>
  "Atoi s =
     (if s = [] then Inl (Error ''invalid syntax'')
      else
        let neg = (hd s = CHR ''-'');
            body = (if hd s = CHR ''-'' \<or> hd s = CHR ''+'' then tl s else s) in
        if body = [] then Inl (Error ''invalid syntax'')
        else (case digitsValue body 0 of
            None \<Rightarrow> Inl (Error ''invalid syntax'')
          | Some n \<Rightarrow>
              let v = (if neg then - n else n) in
              if v < - (2 ^ 63) \<or> 2 ^ 63 \<le> v then Inl (Error ''value out of range'')
              else Inr (word_of_int v)))"

section \<open>The task domain (internal/domain/task/task.go)\<close>

type_synonym TaskStatus = string

definition StatusPending :: TaskStatus where "StatusPending = ''pending''"
definition StatusInProgress :: TaskStatus where "StatusInProgress = ''in_progress''"
definition StatusCompleted :: TaskStatus where "StatusCompleted = ''completed''"
definition StatusCancelled :: TaskStatus where "StatusCancelled = ''cancelled''"

record Task =
  ID :: uuid
  Title :: string
  Status :: TaskStatus
  UserID :: uuid
  CreatedAt :: time
  UpdatedAt :: time

record CreateTaskRequest =
  create_Title :: string

text \<open>A nil pointer field of the update request and of the filter is \<^const>\<open>None\<close>.\<close>

record UpdateTaskRequest =
  update_Title :: "string option"
  update_Status :: "TaskStatus option"

record TaskFilter =
  filter_Status :: "TaskStatus option"
  filter_Search :: string

record TaskSort =
  Field :: string
  Order :: string

definition NewTask :: "string \<Rightarrow> uuid \<Rightarrow> uuid \<Rightarrow> time \<Rightarrow> time \<Rightarrow> Task" where
  \<comment> \<open>\<open>newID\<close> is what \<^verbatim>\<open>uuid.New()\<close> returns; \<open>now1\<close> and \<open>now2\<close> are the readings of
      the two calls of \<^verbatim>\<open>time.Now()\<close>, in the order of the struct literal.\<close>
  "NewTask title userID newID now1 now2 =
     \<lparr>ID = newID, Title = title, Status = StatusPending, UserID = userID,
      CreatedAt = now1, UpdatedAt = now2\<rparr>"

definition Validate_create :: "CreateTaskRequest \<Rightarrow> error option" where
  "Validate_create req =
     (if TrimSpace (create_Title req) = [] then Some (Error ''title is required'')
      else if length (create_Title req) > 200
        then Some (Error ''title must be at most 200 characters'')
      else None)"

definition isValidStatus :: "TaskStatus \<Rightarrow> bool" where
  "isValidStatus status \<longleftrightarrow>
     status = StatusPending \<or> status = StatusInProgress \<or> status = StatusCompleted
       \<or> status = StatusCancelled"

definition Validate_update :: "UpdateTaskRequest \<Rightarrow> error option" where
  "Validate_update req =
     (case (case update_Title req of
              None \<Rightarrow> None
            | Some title \<Rightarrow>
                if TrimSpace title = [] then Some (Error ''title cannot be empty'')
                else if length title > 200
                  then Some (Error ''title must be at most 200 characters'')
                else None) of
        Some e \<Rightarrow> Some e
      | None \<Rightarrow>
          (case update_Status req of
             None \<Rightarrow> None
           | Some status \<Rightarrow>
               if \<not> isValidStatus status then Some (Error ''invalid status'') else None))"

definition Update :: "Task \<Rightarrow> UpdateTaskRequest \<Rightarrow> time \<Rightarrow> Task" where
  \<comment> \<open>\<open>now\<close> is the reading of \<^verbatim>\<open>time.Now()\<close>.\<close>
  "Update t req now =
     (let t1 = (case update_Title req of None \<Rightarrow> t | Some title \<Rightarrow> t\<lparr>Title := title\<rparr>);
          t2 = (case update_Status req of None \<Rightarrow> t1 | Some status \<Rightarrow> t1\<lparr>Status := status\<rparr>)
      in t2\<lparr>UpdatedAt := now\<rparr>)"

section \<open>Pagination metadata (pkg/types/common.go)\<close>

record PaginationInfo =
  Page :: goint
  Limit :: goint
  Total :: int64
  TotalPages :: goint


section \<open>The task service (internal/service/task/task_service.go)\<close>

text \<open>
  The service holds the tasks in a Go map from identifier to task pointer. Every pointer
  is stored under one key only, so the map from identifier to task value carries the same
  information, and an update in place is an update of the entry.
\<close>

record service =
  tasks :: "uuid \<rightharpoonup> Task"

definition CreateTask ::
  "service \<Rightarrow> CreateTaskRequest \<Rightarrow> uuid \<Rightarrow> uuid \<Rightarrow> time \<Rightarrow> time
     \<Rightarrow> service \<times> (error + Task)" where
  \<comment> \<open>Returns the service after the call together with Go's pair \<^verbatim>\<open>(*Task, error)\<close>.\<close>
  "CreateTask s req userID newID now1 now2 =
     (case Validate_create req of
        Some err \<Rightarrow> (s, Inl err)
      | None \<Rightarrow>
          let newTask = NewTask (create_Title req) userID newID now1 now2 in
          (s\<lparr>tasks := (tasks s)(ID newTask \<mapsto> newTask)\<rparr>, Inr newTask))"

definition GetTaskByID :: "service \<Rightarrow> uuid \<Rightarrow> uuid \<Rightarrow> error + Task" where
  "GetTaskByID s taskID userID =
     (case tasks s taskID of
        None \<Rightarrow> Inl (Error ''task not found'')
      | Some task \<Rightarrow>
          if UserID task \<noteq> userID then Inl (Error ''access denied'')
          else Inr task)"

definition UpdateTask ::
  "service \<Rightarrow> uuid \<Rightarrow> UpdateTaskRequest \<Rightarrow> uuid \<Rightarrow> time \<Rightarrow> service \<times> (error + Task)" where
  "UpdateTask s taskID req userID now =
     (case Validate_update req of
        Some err \<Rightarrow> (s, Inl err)
      | None \<Rightarrow>
          (case tasks s taskID of
             None \<Rightarrow> (s, Inl (Error ''task not found''))
           | Some task \<Rightarrow>
               if UserID task \<noteq> userID then (s, Inl (Error ''access denied''))
               else
                 let task' = Update task req now in
                 (s\<lparr>tasks := (tasks s)(taskID \<mapsto> task')\<rparr>, Inr task')))"

definition DeleteTask :: "service \<Rightarrow> uuid \<Rightarrow> uuid \<Rightarrow> service \<times> error option" where
  "DeleteTask s taskID userID =
     (case tasks s taskID of
        None \<Rightarrow> (s, Some (Error ''task not found''))
      | Some task \<Rightarrow>
          if UserID task \<noteq> userID then (s, Some (Error ''access denied''))
          else (s\<lparr>tasks := (tasks s)(taskID := None)\<rparr>, None))"

fun filterLoop :: "(string \<Rightarrow> string) \<Rightarrow> TaskFilter \<Rightarrow> Task list \<Rightarrow> Task list" where
  \<comment> \<open>The loop of \<^verbatim>\<open>applyFilters\<close>: a task that fails a present filter is skipped
      (\<^verbatim>\<open>continue\<close>), every other task is appended.\<close>
  "filterLoop unicodeLower filt [] = []"
| "filterLoop unicodeLower filt (task # rest) =
     (if (case filter_Status filt of None \<Rightarrow> False | Some st \<Rightarrow> Status task \<noteq> st)
        then filterLoop unicodeLower filt rest
      else if filter_Search filt \<noteq> []
          \<and> \<not> Contains (ToLower unicodeLower (Title task))
                (ToLower unicodeLower (filter_Search filt))
        then filterLoop unicodeLower filt rest
      else task # filterLoop unicodeLower filt rest)"

definition applyFilters ::
  "(string \<Rightarrow> string) \<Rightarrow> Task list \<Rightarrow> TaskFilter option \<Rightarrow> Task list" where
  "applyFilters unicodeLower taskList filt =
     (case filt of None \<Rightarrow> taskList | Some f \<Rightarrow> filterLoop unicodeLower f taskList)"

definition statusOrder :: "TaskStatus \<Rightarrow> int" where
  \<comment> \<open>The map literal of \<^verbatim>\<open>applySorting\<close>; a key that is not in a Go map reads as 0.\<close>
  "statusOrder st =
     (if st = StatusPending then 1
      else if st = StatusInProgress then 2
      else if st = StatusCompleted then 3
      else if st = StatusCancelled then 4
      else 0)"

definition sortLess :: "TaskSort \<Rightarrow> Task \<Rightarrow> Task \<Rightarrow> bool" where
  \<comment> \<open>The \<^verbatim>\<open>less\<close> closure handed to \<^verbatim>\<open>sort.Slice\<close>, on the two tasks it compares.\<close>
  "sortLess sortOptions a b =
     (if Field sortOptions = ''title'' then
        (if Order sortOptions = ''asc'' then Title a < Title b else Title a > Title b)
      else if Field sortOptions = ''status'' then
        (if Order sortOptions = ''asc'' then statusOrder (Status a) < statusOrder (Status b)
         else statusOrder (Status a) > statusOrder (Status b))
      else if Field sortOptions = ''updated_at'' then
        (if Order sortOptions = ''asc'' then UpdatedAt a < UpdatedAt b
         else UpdatedAt a > UpdatedAt b)
      else
        (if Order sortOptions = ''asc'' then CreatedAt a < CreatedAt b
         else CreatedAt a > CreatedAt b))"

definition applySorting ::
  "((Task \<Rightarrow> Task \<Rightarrow> bool) \<Rightarrow> Task list \<Rightarrow> Task list) \<Rightarrow> Task list \<Rightarrow> TaskSort option
     \<Rightarrow> Task list" where
  \<comment> \<open>\<open>sort_Slice\<close> stands for the library's \<^verbatim>\<open>sort.Slice\<close>.\<close>
  "applySorting sort_Slice taskList sortOptions =
     (let sortOptions' =
        (case sortOptions of
           None \<Rightarrow> \<lparr>Field = ''created_at'', Order = ''desc''\<rparr>
         | Some so \<Rightarrow> so)
      in sort_Slice (sortLess sortOptions') taskList)"

definition rangeTasks :: "service \<Rightarrow> uuid list \<Rightarrow> Task list" where
  \<comment> \<open>\<^verbatim>\<open>for _, task := range s.tasks\<close>: the tasks in the order \<open>keys\<close> in which this
      iteration visits the keys of the map. Go leaves that order unspecified, and it may
      differ from one loop over the same map to the next.\<close>
  "rangeTasks s keys = List.map_filter (tasks s) keys"

definition ListTasks ::
  "(string \<Rightarrow> string) \<Rightarrow> ((Task \<Rightarrow> Task \<Rightarrow> bool) \<Rightarrow> Task list \<Rightarrow> Task list) \<Rightarrow> service
     \<Rightarrow> uuid list \<Rightarrow> TaskFilter option \<Rightarrow> TaskSort option \<Rightarrow> goint \<Rightarrow> goint \<Rightarrow> uuid
     \<Rightarrow> error + (Task list \<times> PaginationInfo)" where
  "ListTasks unicodeLower sort_Slice s keys filt sortOpt page limit userID =
     (let userTasks = filter (\<lambda>task. UserID task = userID) (rangeTasks s keys);
          filteredTasks = applyFilters unicodeLower userTasks filt;
          sortedTasks = applySorting sort_Slice filteredTasks sortOpt;
          total = len sortedTasks
      in case int64_div (total + limit - 1) limit of
           Inl panic \<Rightarrow> Inl panic
         | Inr totalPages \<Rightarrow>
             let start = (page - 1) * limit;
                 end = start + limit;
                 paginationInfo =
                   \<lparr>Page = page, Limit = limit, Total = total, TotalPages = totalPages\<rparr>
             in if sint (len sortedTasks) \<le> sint start then Inr ([], paginationInfo)
                else
                  let end' = (if sint (len sortedTasks) < sint end then len sortedTasks
                              else end)
                  in (case slice_expr sortedTasks start end' of
                        Inl panic \<Rightarrow> Inl panic
                      | Inr paginatedTasks \<Rightarrow> Inr (paginatedTasks, paginationInfo)))"

text \<open>
  \<^verbatim>\<open>sort.Slice\<close> promises a permutation of the slice that is ordered by \<^verbatim>\<open>less\<close>, and
  explicitly not a stable one. On a short slice the library runs the insertion sort
  below; it is the instance the concrete runs of this theory use.
\<close>

fun insertLess :: "('a \<Rightarrow> 'a \<Rightarrow> bool) \<Rightarrow> 'a \<Rightarrow> 'a list \<Rightarrow> 'a list" where
  \<comment> \<open>The inner loop of \<^verbatim>\<open>insertionSortLessFunc\<close>: the new element, arriving from the
      right of the sorted prefix \<open>rev ys\<close>, moves left while it is less than its
      left neighbour. The prefix is held reversed, nearest neighbour first.\<close>
  "insertLess lessFn x [] = [x]"
| "insertLess lessFn x (y # ys) = (if lessFn x y then y # insertLess lessFn x ys else x # y # ys)"

fun insertionLoop :: "('a \<Rightarrow> 'a \<Rightarrow> bool) \<Rightarrow> 'a list \<Rightarrow> 'a list \<Rightarrow> 'a list" where
  "insertionLoop lessFn before [] = rev before"
| "insertionLoop lessFn before (x # xs) = insertionLoop lessFn (insertLess lessFn x before) xs"

definition insertionSortLessFunc :: "('a \<Rightarrow> 'a \<Rightarrow> bool) \<Rightarrow> 'a list \<Rightarrow> 'a list" where
  "insertionSortLessFunc lessFn xs = insertionLoop lessFn [] xs"

section \<open>The list endpoint's pagination parameters (internal/handler/task/task_handler.go)\<close>

definition parsePagination :: "string \<Rightarrow> string \<Rightarrow> goint \<times> goint" where
  \<comment> \<open>\<open>pageStr\<close> and \<open>limitStr\<close> are \<^verbatim>\<open>c.Query("page")\<close> and \<^verbatim>\<open>c.Query("limit")\<close>: the
      raw query values, empty when the parameter is absent.\<close>
  "parsePagination pageStr limitStr =
     (let page = (if pageStr \<noteq> [] then
                    (case Atoi pageStr of
                       Inr p \<Rightarrow> if 0 < sint p then p else 1
                     | Inl err \<Rightarrow> 1)
                  else 1);
          limit = (if limitStr \<noteq> [] then
                     (case Atoi limitStr of
                        Inr l \<Rightarrow> if 0 < sint l \<and> sint l \<le> 100 then l else 10
                      | Inl err \<Rightarrow> 10)
                   else 10)
      in (page, limit))"


section \<open>The authentication service\<close>

record User =
  user_ID :: uuid
  user_Email :: string
  user_Password :: string
  user_CreatedAt :: time
  user_UpdatedAt :: time

record LoginRequest =
  Email :: string
  Password :: string

record TokenResponse =
  AccessToken :: string
  RefreshToken :: string
  TokenType :: string
  ExpiresIn :: int64

text \<open>
  A \<^verbatim>\<open>time.Duration\<close> is an int64 count of nanoseconds. Of \<^verbatim>\<open>config.Config\<close> the service
  reads the JWT part only, which is what the field \<open>config\<close> holds here.
\<close>

record JWTConfig =
  SecretKey :: string
  AccessTokenTTL :: int64
  RefreshTokenTTL :: int64
  Issuer :: string

record authService =
  config :: JWTConfig
  users :: "string \<rightharpoonup> User"

definition isValidEmail :: "string \<Rightarrow> bool" where
  "isValidEmail email \<longleftrightarrow> Contains email ''@'' \<and> Contains email ''.''"

definition Validate_login :: "LoginRequest \<Rightarrow> error option" where
  "Validate_login req =
     (if TrimSpace (Email req) = [] then Some (Error ''email is required'')
      else if \<not> isValidEmail (Email req) then Some (Error ''invalid email format'')
      else if TrimSpace (Password req) = [] then Some (Error ''password is required'')
      else if length (Password req) < 8
        then Some (Error ''password must be at least 8 characters long'')
      else None)"

definition durationSeconds :: "int64 \<Rightarrow> int64" where
  \<comment> \<open>\<^verbatim>\<open>int64(d.Seconds())\<close> for a duration in nanoseconds: its whole seconds, truncated
      towards zero. The float64 rounding of \<^verbatim>\<open>Duration.Seconds\<close> is left out.\<close>
  "durationSeconds d = word_of_int (sint d sdiv 1000000000)"

definition Login ::
  "(string \<Rightarrow> uuid \<Rightarrow> string \<Rightarrow> int64 \<Rightarrow> error + string) \<Rightarrow> authService \<Rightarrow> LoginRequest
     \<Rightarrow> error + TokenResponse" where
  \<comment> \<open>\<open>GenerateToken\<close> stands for \<^verbatim>\<open>utils.GenerateToken\<close>, the token signer of package
      \<^verbatim>\<open>pkg/utils\<close>.\<close>
  "Login GenerateToken s req =
     (case Validate_login req of
        Some err \<Rightarrow> Inl err
      | None \<Rightarrow>
          (case users s (Email req) of
             None \<Rightarrow> Inl (Error ''invalid email or password'')
           | Some user \<Rightarrow>
               if user_Password user \<noteq> Password req
                 then Inl (Error ''invalid email or password'')
               else
                 (case GenerateToken (SecretKey (config s)) (user_ID user) (user_Email user)
                         (AccessTokenTTL (config s)) of
                    Inl err \<Rightarrow> Inl (Error ''failed to generate access token'')
                  | Inr accessToken \<Rightarrow>
                      (case GenerateToken (SecretKey (config s)) (user_ID user)
                              (user_Email user) (RefreshTokenTTL (config s)) of
                         Inl err \<Rightarrow> Inl (Error ''failed to generate refresh token'')
                       | Inr refreshToken \<Rightarrow>
                           Inr \<lparr>AccessToken = accessToken, RefreshToken = refreshToken,
                                TokenType = ''Bearer'',
                                ExpiresIn = durationSeconds (AccessTokenTTL (config s))\<rparr>))))"

section \<open>The vocabulary of the list claims\<close>

text \<open>
  The definitions of this section are not functions of the program. They name what the
  specification talks about, so that the theorems can compare \<open>ListTasks\<close> with it.
\<close>

definition enumerates :: "uuid list \<Rightarrow> service \<Rightarrow> bool" where
  \<comment> \<open>\<open>keys\<close> is an order in which a \<^verbatim>\<open>range\<close> loop can visit the store: every key of
      the map, once.\<close>
  "enumerates keys s \<longleftrightarrow> distinct keys \<and> set keys = dom (tasks s)"

definition matchesFilter :: "(string \<Rightarrow> string) \<Rightarrow> TaskFilter option \<Rightarrow> Task \<Rightarrow> bool" where
  \<comment> \<open>The filter in the specification's words: an absent filter matches every task; a
      status filter asks for an equal status; a non-empty search string asks for a title
      that contains it, both in lower case.\<close>
  "matchesFilter unicodeLower filt task \<longleftrightarrow>
     (case filt of
        None \<Rightarrow> True
      | Some f \<Rightarrow>
          (case filter_Status f of None \<Rightarrow> True | Some st \<Rightarrow> Status task = st)
          \<and> (filter_Search f = []
               \<or> Contains (ToLower unicodeLower (Title task))
                    (ToLower unicodeLower (filter_Search f))))"

definition ownedMatching ::
  "(string \<Rightarrow> string) \<Rightarrow> service \<Rightarrow> uuid \<Rightarrow> TaskFilter option \<Rightarrow> Task set" where
  \<comment> \<open>the requester's tasks that match the filter\<close>
  "ownedMatching unicodeLower s userID filt =
     {task \<in> ran (tasks s). UserID task = userID \<and> matchesFilter unicodeLower filt task}"

definition matchingKeys ::
  "(string \<Rightarrow> string) \<Rightarrow> service \<Rightarrow> uuid \<Rightarrow> TaskFilter option \<Rightarrow> uuid set" where
  \<comment> \<open>the keys under which the store holds them; their number is the total\<close>
  "matchingKeys unicodeLower s userID filt =
     {k. \<exists>task. tasks s k = Some task \<and> UserID task = userID
           \<and> matchesFilter unicodeLower filt task}"

definition filteredTasks ::
  "(string \<Rightarrow> string) \<Rightarrow> service \<Rightarrow> uuid list \<Rightarrow> uuid \<Rightarrow> TaskFilter option \<Rightarrow> Task list" where
  \<comment> \<open>the value of the variable \<^verbatim>\<open>filteredTasks\<close> of \<open>ListTasks\<close>\<close>
  "filteredTasks unicodeLower s keys userID filt =
     applyFilters unicodeLower (filter (\<lambda>task. UserID task = userID) (rangeTasks s keys)) filt"

definition sortedTasks ::
  "(string \<Rightarrow> string) \<Rightarrow> ((Task \<Rightarrow> Task \<Rightarrow> bool) \<Rightarrow> Task list \<Rightarrow> Task list) \<Rightarrow> service
     \<Rightarrow> uuid list \<Rightarrow> uuid \<Rightarrow> TaskFilter option \<Rightarrow> TaskSort option \<Rightarrow> Task list" where
  \<comment> \<open>the value of the variable \<^verbatim>\<open>sortedTasks\<close> of \<open>ListTasks\<close>\<close>
  "sortedTasks unicodeLower sort_Slice s keys userID filt sortOpt =
     applySorting sort_Slice (filteredTasks unicodeLower s keys userID filt) sortOpt"

definition resolvedSort :: "TaskSort option \<Rightarrow> TaskSort" where
  \<comment> \<open>the sort specification in force: created_at descending when none is given\<close>
  "resolvedSort sortOpt =
     (case sortOpt of None \<Rightarrow> \<lparr>Field = ''created_at'', Order = ''desc''\<rparr> | Some so \<Rightarrow> so)"

definition weakOrder :: "('a \<Rightarrow> 'a \<Rightarrow> bool) \<Rightarrow> bool" where
  \<comment> \<open>what \<^verbatim>\<open>sort.Slice\<close> asks of \<^verbatim>\<open>less\<close>: asymmetric, and "not less" transitive\<close>
  "weakOrder lt \<longleftrightarrow>
     (\<forall>a b. lt a b \<longrightarrow> \<not> lt b a) \<and> (\<forall>a b c. \<not> lt b a \<longrightarrow> \<not> lt c b \<longrightarrow> \<not> lt c a)"

definition sortsBy :: "(('a \<Rightarrow> 'a \<Rightarrow> bool) \<Rightarrow> 'a list \<Rightarrow> 'a list) \<Rightarrow> bool" where
  \<comment> \<open>The contract of \<^verbatim>\<open>sort.Slice\<close>: the result is a permutation of the slice, and no
      element is less than one before it. Stability is not part of it.\<close>
  "sortsBy srt \<longleftrightarrow>
     (\<forall>lt xs. mset (srt lt xs) = mset xs
        \<and> (weakOrder lt \<longrightarrow> sorted_wrt (\<lambda>a b. \<not> lt b a) (srt lt xs)))"

definition tied :: "('a \<Rightarrow> 'a \<Rightarrow> bool) \<Rightarrow> 'a \<Rightarrow> 'a \<Rightarrow> bool" where
  \<comment> \<open>two elements tie when neither is less than the other\<close>
  "tied lt a b \<longleftrightarrow> \<not> lt a b \<and> \<not> lt b a"

section \<open>Example stores\<close>

definition john :: uuid where "john = 0x3484ec3320f94993a25ff49f6f5dbe54"
definition jane :: uuid where "jane = 0x550e8400e29b41d4a716446655440002"

definition exampleUsers :: authService where
  "exampleUsers =
     \<lparr>config = \<lparr>SecretKey = ''test-secret'', AccessTokenTTL = 900000000000,
                 RefreshTokenTTL = 604800000000000, Issuer = ''todo-api''\<rparr>,
      users = [''john.doe@example.com'' \<mapsto>
                 \<lparr>user_ID = john, user_Email = ''john.doe@example.com'',
                  user_Password = ''password123'', user_CreatedAt = 0, user_UpdatedAt = 0\<rparr>]\<rparr>"

definition asciiOnly :: "string \<Rightarrow> string" where
  \<comment> \<open>stands for the Unicode lower-casing in the examples, whose strings are all ASCII and
      never reach it\<close>
  "asciiOnly s = s"

definition exampleSigner :: "string \<Rightarrow> uuid \<Rightarrow> string \<Rightarrow> int64 \<Rightarrow> error + string" where
  "exampleSigner key userID email ttl = Inr (key @ ''.'' @ email)"

definition taskAlpha :: Task where
  "taskAlpha = \<lparr>ID = 1, Title = ''Alpha'', Status = StatusPending, UserID = john,
                CreatedAt = 10, UpdatedAt = 10\<rparr>"

definition taskBeta :: Task where
  "taskBeta = \<lparr>ID = 2, Title = ''beta'', Status = StatusPending, UserID = john,
               CreatedAt = 20, UpdatedAt = 20\<rparr>"

definition taskGamma :: Task where
  "taskGamma = \<lparr>ID = 3, Title = ''Gamma'', Status = StatusCompleted, UserID = john,
                CreatedAt = 30, UpdatedAt = 30\<rparr>"

definition taskPlan :: Task where
  "taskPlan = \<lparr>ID = 4, Title = ''Plan team meeting'', Status = StatusCompleted, UserID = jane,
               CreatedAt = 40, UpdatedAt = 40\<rparr>"

definition exampleStore :: service where
  "exampleStore = \<lparr>tasks = [1 \<mapsto> taskAlpha, 2 \<mapsto> taskBeta, 3 \<mapsto> taskGamma, 4 \<mapsto> taskPlan]\<rparr>"


section \<open>Facts about the library functions\<close>

lemma trimStop_keeps:
  "s \<noteq> [] \<Longrightarrow> (of_char (last s) :: nat) < RuneSelf \<Longrightarrow> \<not> asciiSpace (last s)
     \<Longrightarrow> trimStop s = s"
  by (subst trimStop.simps) simp

lemma TrimSpace_spaces: "TrimSpace (replicate n (CHR '' '') @ s) = TrimSpace s"
  by (induction n) (simp_all add: asciiSpace_def RuneSelf_def)

lemma Atoi_empty: "Atoi [] = Inl (Error ''invalid syntax'')"
  by (simp add: Atoi_def)

section \<open>Lifecycle operations\<close>

text \<open>
  Claim C3. For every task id and requester, \<open>GetTaskByID\<close> fails with "task not found"
  exactly when the store has no task under that id, whoever asks, and fails with
  "access denied" exactly when the task exists and its owner differs from the requester:
  existence is checked first, ownership second.
\<close>

theorem GetTaskByID_existence_first:
  "(GetTaskByID s taskID userID = Inl (Error ''task not found'') \<longleftrightarrow> tasks s taskID = None)
   \<and> (GetTaskByID s taskID userID = Inl (Error ''access denied'')
        \<longleftrightarrow> (\<exists>task. tasks s taskID = Some task \<and> UserID task \<noteq> userID))"
  by (auto simp: GetTaskByID_def split: option.splits)

theorem GetTaskByID_existence_first_witness:
  "GetTaskByID exampleStore 9 jane = Inl (Error ''task not found'')
   \<and> GetTaskByID exampleStore 1 jane = Inl (Error ''access denied'')
   \<and> GetTaskByID exampleStore 1 john = Inr taskAlpha"
proof -
  have absent: "tasks exampleStore 9 = None"
    by (simp add: exampleStore_def)
  have other: "\<exists>task. tasks exampleStore 1 = Some task \<and> UserID task \<noteq> jane"
    by (simp add: exampleStore_def taskAlpha_def john_def jane_def)
  have own: "GetTaskByID exampleStore 1 john = Inr taskAlpha"
    by (simp add: GetTaskByID_def exampleStore_def taskAlpha_def)
  from GetTaskByID_existence_first [of exampleStore 9 jane] absent
  have "GetTaskByID exampleStore 9 jane = Inl (Error ''task not found'')" by blast
  moreover from GetTaskByID_existence_first [of exampleStore 1 jane] other
  have "GetTaskByID exampleStore 1 jane = Inl (Error ''access denied'')" by blast
  ultimately show ?thesis using own by simp
qed

text \<open>
  Claim C8. Create, Update and Delete validate before they write: whenever one of them
  returns an error (a validation error, "task not found" or "access denied"), the service
  after the call is the service before it.
\<close>

theorem errors_leave_store:
  "(\<forall>e. snd (CreateTask s creq userID newID now1 now2) = Inl e
        \<longrightarrow> fst (CreateTask s creq userID newID now1 now2) = s)
   \<and> (\<forall>e. snd (UpdateTask s taskID ureq userID now) = Inl e
        \<longrightarrow> fst (UpdateTask s taskID ureq userID now) = s)
   \<and> (\<forall>e. snd (DeleteTask s taskID userID) = Some e
        \<longrightarrow> fst (DeleteTask s taskID userID) = s)"
proof (intro conjI allI impI)
  fix e assume "snd (CreateTask s creq userID newID now1 now2) = Inl e"
  then show "fst (CreateTask s creq userID newID now1 now2) = s"
    by (simp add: CreateTask_def Let_def split: option.splits)
next
  fix e assume "snd (UpdateTask s taskID ureq userID now) = Inl e"
  then show "fst (UpdateTask s taskID ureq userID now) = s"
    by (simp add: UpdateTask_def Let_def split: option.splits if_splits)
next
  fix e assume "snd (DeleteTask s taskID userID) = Some e"
  then show "fst (DeleteTask s taskID userID) = s"
    by (simp add: DeleteTask_def split: option.splits if_splits)
qed

theorem errors_leave_store_witness:
  "snd (CreateTask exampleStore \<lparr>create_Title = ''   ''\<rparr> john 5 50 51)
       = Inl (Error ''title is required'')
   \<and> fst (CreateTask exampleStore \<lparr>create_Title = ''   ''\<rparr> john 5 50 51) = exampleStore
   \<and> snd (UpdateTask exampleStore 1 \<lparr>update_Title = None, update_Status = Some ''done''\<rparr> john 50)
       = Inl (Error ''invalid status'')
   \<and> fst (UpdateTask exampleStore 1 \<lparr>update_Title = None, update_Status = Some ''done''\<rparr> john 50)
       = exampleStore
   \<and> snd (UpdateTask exampleStore 9 \<lparr>update_Title = None, update_Status = None\<rparr> john 50)
       = Inl (Error ''task not found'')
   \<and> fst (UpdateTask exampleStore 9 \<lparr>update_Title = None, update_Status = None\<rparr> john 50)
       = exampleStore
   \<and> snd (DeleteTask exampleStore 4 john) = Some (Error ''access denied'')
   \<and> fst (DeleteTask exampleStore 4 john) = exampleStore"
proof -
  have c: "snd (CreateTask exampleStore \<lparr>create_Title = ''   ''\<rparr> john 5 50 51)
       = Inl (Error ''title is required'')"
    by (simp add: CreateTask_def Validate_create_def asciiSpace_def RuneSelf_def)
  have u1: "snd (UpdateTask exampleStore 1 \<lparr>update_Title = None, update_Status = Some ''done''\<rparr> john 50)
       = Inl (Error ''invalid status'')"
    by (simp add: UpdateTask_def Validate_update_def isValidStatus_def StatusPending_def
        StatusInProgress_def StatusCompleted_def StatusCancelled_def)
  have u2: "snd (UpdateTask exampleStore 9 \<lparr>update_Title = None, update_Status = None\<rparr> john 50)
       = Inl (Error ''task not found'')"
    by (simp add: UpdateTask_def Validate_update_def exampleStore_def)
  have d: "snd (DeleteTask exampleStore 4 john) = Some (Error ''access denied'')"
    by (simp add: DeleteTask_def exampleStore_def taskPlan_def john_def jane_def)
  note frame = errors_leave_store
  from frame [of exampleStore "\<lparr>create_Title = ''   ''\<rparr>" john 5 50 51] c
  have c': "fst (CreateTask exampleStore \<lparr>create_Title = ''   ''\<rparr> john 5 50 51) = exampleStore"
    by blast
  from frame [of exampleStore _ _ _ _ _ 1 "\<lparr>update_Title = None, update_Status = Some ''done''\<rparr>" 50] u1
  have u1': "fst (UpdateTask exampleStore 1 \<lparr>update_Title = None, update_Status = Some ''done''\<rparr> john 50)
       = exampleStore"
    by blast
  from frame [of exampleStore _ _ _ _ _ 9 "\<lparr>update_Title = None, update_Status = None\<rparr>" 50] u2
  have u2': "fst (UpdateTask exampleStore 9 \<lparr>update_Title = None, update_Status = None\<rparr> john 50)
       = exampleStore"
    by blast
  from frame [of exampleStore _ john _ _ _ 4] d
  have d': "fst (DeleteTask exampleStore 4 john) = exampleStore"
    by blast
  from c c' u1 u1' u2 u2' d d' show ?thesis by simp
qed


text \<open>
  Claim C10. Whenever the title of a create request passes validation, the task that
  \<open>CreateTask\<close> returns, and stores under its id, carries the request's title byte
  for byte: validation trims a copy only to test it for emptiness. A title with blanks
  around it, such as \<open>''  x  ''\<close>, is kept with its blanks.
\<close>

theorem CreateTask_title_verbatim:
  assumes "Validate_create req = None"
  shows "\<exists>task. snd (CreateTask s req userID newID now1 now2) = Inr task
           \<and> Title task = create_Title req
           \<and> tasks (fst (CreateTask s req userID newID now1 now2)) (ID task) = Some task"
  using assms by (simp add: CreateTask_def NewTask_def Let_def)

theorem CreateTask_title_verbatim_witness:
  "TrimSpace ''  x  '' = ''x''
   \<and> Validate_create \<lparr>create_Title = ''  x  ''\<rparr> = None
   \<and> (\<exists>task. snd (CreateTask exampleStore \<lparr>create_Title = ''  x  ''\<rparr> john 5 50 51) = Inr task
         \<and> Title task = ''  x  ''
         \<and> tasks (fst (CreateTask exampleStore \<lparr>create_Title = ''  x  ''\<rparr> john 5 50 51)) (ID task)
             = Some task)"
proof -
  have t: "TrimSpace ''  x  '' = ''x''"
    by code_simp
  have v: "Validate_create \<lparr>create_Title = ''  x  ''\<rparr> = None"
    by (simp add: Validate_create_def t del: TrimSpace.simps)
  from CreateTask_title_verbatim [OF v, of exampleStore john 5 50 51] t v
  show ?thesis by simp
qed

text \<open>
  Claim C4, as the code has it. \<open>CreateTask\<close> fails with a validation error exactly
  when the title is empty after trimming or the untrimmed title is longer than 200 bytes;
  otherwise it succeeds and returns a task with status pending, the requester as owner,
  the first clock reading of \<open>NewTask\<close> as creation time and the second as update time,
  so that on a monotonic clock the update time is not before the creation time.
\<close>

theorem CreateTask_validation:
  "((\<exists>msg. snd (CreateTask s req userID newID now1 now2) = Inl (Error msg))
      \<longleftrightarrow> TrimSpace (create_Title req) = [] \<or> 200 < length (create_Title req))
   \<and> (TrimSpace (create_Title req) \<noteq> [] \<and> length (create_Title req) \<le> 200
        \<longrightarrow> (\<exists>task. snd (CreateTask s req userID newID now1 now2) = Inr task
              \<and> Status task = StatusPending \<and> UserID task = userID
              \<and> CreatedAt task = now1 \<and> UpdatedAt task = now2
              \<and> (now1 \<le> now2 \<longrightarrow> CreatedAt task \<le> UpdatedAt task)))"
  by (simp add: CreateTask_def Validate_create_def NewTask_def Let_def)

theorem CreateTask_validation_witness:
  "TrimSpace ''Review code changes'' \<noteq> [] \<and> length ''Review code changes'' \<le> 200
   \<and> (\<exists>task. snd (CreateTask exampleStore \<lparr>create_Title = ''Review code changes''\<rparr> john 5 50 51)
          = Inr task
        \<and> Status task = StatusPending \<and> UserID task = john
        \<and> CreatedAt task = 50 \<and> UpdatedAt task = 51 \<and> CreatedAt task \<le> UpdatedAt task)"
proof -
  have t: "TrimSpace ''Review code changes'' \<noteq> []"
    by code_simp
  have l: "length ''Review code changes'' \<le> 200"
    by simp
  from CreateTask_validation [of exampleStore "\<lparr>create_Title = ''Review code changes''\<rparr>" john 5 50 51] t l
  show ?thesis by (simp del: TrimSpace.simps)
qed

text \<open>
  The claim as stated, with the length measured after trimming and equal timestamps,
  fails: a title of 200 blanks and one letter is a single character after trimming and is
  rejected as too long, and a clock that advances between the two readings of
  \<open>NewTask\<close> leaves the timestamps different.
\<close>

theorem CreateTask_validation_counterexample:
  "TrimSpace (replicate 200 (CHR '' '') @ ''x'') \<noteq> []
   \<and> length (TrimSpace (replicate 200 (CHR '' '') @ ''x'')) \<le> 200
   \<and> snd (CreateTask exampleStore \<lparr>create_Title = replicate 200 (CHR '' '') @ ''x''\<rparr> john 5 50 51)
       = Inl (Error ''title must be at most 200 characters'')
   \<and> snd (CreateTask exampleStore \<lparr>create_Title = ''x''\<rparr> john 5 50 51)
       = Inr (NewTask ''x'' john 5 50 51)
   \<and> CreatedAt (NewTask ''x'' john 5 50 51) \<noteq> UpdatedAt (NewTask ''x'' john 5 50 51)"
proof -
  have t: "TrimSpace (replicate 200 (CHR '' '') @ ''x'') = ''x''"
    by (simp add: TrimSpace_spaces trimStop_keeps asciiSpace_def RuneSelf_def)
  have t': "TrimSpace ''x'' = ''x''"
    by (simp add: trimStop_keeps asciiSpace_def RuneSelf_def)
  show ?thesis
    by (simp add: t t' CreateTask_def Validate_create_def NewTask_def Let_def del: TrimSpace.simps)
qed

text \<open>
  Claim C7. Let a task be stored under an id, stamped no later than the clock reading
  \<open>now\<close> of this call (the clock is monotonic). Every successful \<open>UpdateTask\<close> keeps the
  task's id, owner and creation time, sets the update time to \<open>now\<close>, which is not before
  the old one, keeps a field the patch leaves out and sets a field the patch gives, and
  writes the task back under the same id. A valid patch from the owner succeeds; an empty
  patch is valid and changes the update time only.
\<close>

theorem UpdateTask_frame:
  assumes "tasks s taskID = Some task" and "UpdatedAt task \<le> now"
  shows "(\<forall>s' task'. UpdateTask s taskID req userID now = (s', Inr task') \<longrightarrow>
            ID task' = ID task \<and> UserID task' = UserID task \<and> CreatedAt task' = CreatedAt task
            \<and> UpdatedAt task' = now \<and> UpdatedAt task \<le> UpdatedAt task'
            \<and> (update_Title req = None \<longrightarrow> Title task' = Title task)
            \<and> (update_Status req = None \<longrightarrow> Status task' = Status task)
            \<and> (\<forall>title. update_Title req = Some title \<longrightarrow> Title task' = title)
            \<and> (\<forall>status. update_Status req = Some status \<longrightarrow> Status task' = status)
            \<and> tasks s' = (tasks s)(taskID \<mapsto> task'))
         \<and> (Validate_update req = None \<and> UserID task = userID \<longrightarrow>
              (\<exists>s' task'. UpdateTask s taskID req userID now = (s', Inr task')))
         \<and> (update_Title req = None \<and> update_Status req = None \<and> UserID task = userID \<longrightarrow>
              snd (UpdateTask s taskID req userID now) = Inr (task\<lparr>UpdatedAt := now\<rparr>))"
proof (intro conjI allI impI)
  fix s' task'
  assume ok: "UpdateTask s taskID req userID now = (s', Inr task')"
  from ok assms(1) have t': "task' = Update task req now"
    by (auto simp: UpdateTask_def Let_def split: option.splits if_splits)
  from ok assms(1) show "tasks s' = (tasks s)(taskID \<mapsto> task')"
    by (auto simp: UpdateTask_def Let_def split: option.splits if_splits)
  show "ID task' = ID task" "UserID task' = UserID task" "CreatedAt task' = CreatedAt task"
    "UpdatedAt task' = now"
    by (simp_all add: t' Update_def Let_def split: option.splits)
  then show "UpdatedAt task \<le> UpdatedAt task'"
    using assms(2) by simp
  { assume "update_Title req = None"
    then show "Title task' = Title task"
      by (simp add: t' Update_def Let_def split: option.splits) }
  { assume "update_Status req = None"
    then show "Status task' = Status task"
      by (simp add: t' Update_def Let_def split: option.splits) }
  { fix title assume "update_Title req = Some title"
    then show "Title task' = title"
      by (simp add: t' Update_def Let_def split: option.splits) }
  { fix status assume "update_Status req = Some status"
    then show "Status task' = status"
      by (simp add: t' Update_def Let_def split: option.splits) }
next
  assume "Validate_update req = None \<and> UserID task = userID"
  with assms(1) show "\<exists>s' task'. UpdateTask s taskID req userID now = (s', Inr task')"
    by (simp add: UpdateTask_def Let_def)
next
  assume "update_Title req = None \<and> update_Status req = None \<and> UserID task = userID"
  with assms(1) show "snd (UpdateTask s taskID req userID now) = Inr (task\<lparr>UpdatedAt := now\<rparr>)"
    by (simp add: UpdateTask_def Validate_update_def Update_def Let_def)
qed

theorem UpdateTask_frame_witness:
  "tasks exampleStore 1 = Some taskAlpha \<and> UpdatedAt taskAlpha \<le> 50
   \<and> snd (UpdateTask exampleStore 1 \<lparr>update_Title = None, update_Status = None\<rparr> john 50)
       = Inr (taskAlpha\<lparr>UpdatedAt := 50\<rparr>)
   \<and> UpdateTask exampleStore 1 \<lparr>update_Title = None, update_Status = Some StatusCompleted\<rparr> john 50
       = (exampleStore\<lparr>tasks := (tasks exampleStore)(1 \<mapsto> taskAlpha\<lparr>Status := StatusCompleted, UpdatedAt := 50\<rparr>)\<rparr>,
          Inr (taskAlpha\<lparr>Status := StatusCompleted, UpdatedAt := 50\<rparr>))
   \<and> Title (taskAlpha\<lparr>Status := StatusCompleted, UpdatedAt := 50\<rparr>) = Title taskAlpha
   \<and> UpdatedAt taskAlpha \<le> UpdatedAt (taskAlpha\<lparr>Status := StatusCompleted, UpdatedAt := 50\<rparr>)"
proof -
  have a: "tasks exampleStore 1 = Some taskAlpha"
    by (simp add: exampleStore_def)
  have b: "UpdatedAt taskAlpha \<le> 50"
    by (simp add: taskAlpha_def)
  have o: "UserID taskAlpha = john"
    by (simp add: taskAlpha_def)
  have run: "UpdateTask exampleStore 1 \<lparr>update_Title = None, update_Status = Some StatusCompleted\<rparr> john 50
       = (exampleStore\<lparr>tasks := (tasks exampleStore)(1 \<mapsto> taskAlpha\<lparr>Status := StatusCompleted, UpdatedAt := 50\<rparr>)\<rparr>,
          Inr (taskAlpha\<lparr>Status := StatusCompleted, UpdatedAt := 50\<rparr>))"
    by (simp add: UpdateTask_def Validate_update_def isValidStatus_def Update_def Let_def a o)
  note frame = UpdateTask_frame [OF a b]
  from frame [of "\<lparr>update_Title = None, update_Status = None\<rparr>" john] o
  have e: "snd (UpdateTask exampleStore 1 \<lparr>update_Title = None, update_Status = None\<rparr> john 50)
       = Inr (taskAlpha\<lparr>UpdatedAt := 50\<rparr>)"
    by simp
  from frame [of "\<lparr>update_Title = None, update_Status = Some StatusCompleted\<rparr>" john] run
  have "Title (taskAlpha\<lparr>Status := StatusCompleted, UpdatedAt := 50\<rparr>) = Title taskAlpha
        \<and> UpdatedAt taskAlpha \<le> UpdatedAt (taskAlpha\<lparr>Status := StatusCompleted, UpdatedAt := 50\<rparr>)"
    by simp
  with a b e run show ?thesis by simp
qed

section \<open>The list endpoint's parameters\<close>

text \<open>
  Claim C5, as the code has it. The page resolves to the parsed integer when that is
  positive and to 1 otherwise. The limit resolves to the parsed integer when that lies
  between 1 and 100 and to the default 10 otherwise: a value above 100 is discarded like a
  non-positive one, not clamped to 100. No value is rejected, and the resolved page is at
  least 1 and the resolved limit between 1 and 100.
\<close>

theorem parsePagination_resolves:
  "fst (parsePagination pageStr limitStr)
     = (case Atoi pageStr of Inr p \<Rightarrow> if 0 < sint p then p else 1 | Inl err \<Rightarrow> 1)
   \<and> snd (parsePagination pageStr limitStr)
     = (case Atoi limitStr of
          Inr l \<Rightarrow> if 0 < sint l \<and> sint l \<le> 100 then l else 10
        | Inl err \<Rightarrow> 10)
   \<and> 1 \<le> sint (fst (parsePagination pageStr limitStr))
   \<and> 1 \<le> sint (snd (parsePagination pageStr limitStr))
   \<and> sint (snd (parsePagination pageStr limitStr)) \<le> 100"
  by (cases "pageStr = []"; cases "limitStr = []")
     (auto simp: parsePagination_def Atoi_empty Let_def split: sum.splits)

theorem parsePagination_resolves_witness:
  "parsePagination ''3'' ''25'' = (3, 25)
   \<and> parsePagination ''-3'' ''0'' = (1, 10)
   \<and> parsePagination ''abc'' ''101'' = (1, 10)
   \<and> parsePagination [] [] = (1, 10)
   \<and> parsePagination ''9223372036854775807'' ''100'' = (9223372036854775807, 100)
   \<and> 1 \<le> sint (fst (parsePagination ''9223372036854775807'' ''100''))
   \<and> sint (snd (parsePagination ''9223372036854775807'' ''100'')) \<le> 100"
proof -
  have runs: "parsePagination ''3'' ''25'' = (3, 25)" "parsePagination ''-3'' ''0'' = (1, 10)"
    "parsePagination ''abc'' ''101'' = (1, 10)" "parsePagination [] [] = (1, 10)"
    "parsePagination ''9223372036854775807'' ''100'' = (9223372036854775807, 100)"
    by (simp_all add: parsePagination_def Atoi_def isDigit_def)
  from parsePagination_resolves [of "''9223372036854775807''" "''100''"]
  have "1 \<le> sint (fst (parsePagination ''9223372036854775807'' ''100''))
        \<and> sint (snd (parsePagination ''9223372036854775807'' ''100'')) \<le> 100"
    by blast
  with runs show ?thesis by simp
qed

text \<open>The claim as stated has a limit above 100 clamped; the code resolves 150 to 10.\<close>

theorem parsePagination_clamp_counterexample:
  "Atoi ''150'' = Inr 150
   \<and> snd (parsePagination ''1'' ''150'') = 10
   \<and> snd (parsePagination ''1'' ''150'') \<noteq> 100"
  by (simp add: parsePagination_def Atoi_def isDigit_def)

section \<open>Login\<close>

text \<open>
  Claim C9. A login request that passes \<open>Validate\<close> and fails authentication gets the
  error "invalid email or password", whether the email is unknown or the password of a
  known email does not match.
\<close>

theorem Login_invalid_credentials:
  assumes "Validate_login req = None"
      and "users s (Email req) = None
           \<or> (\<exists>user. users s (Email req) = Some user \<and> user_Password user \<noteq> Password req)"
  shows "Login GenerateToken s req = Inl (Error ''invalid email or password'')"
  using assms by (auto simp: Login_def)

theorem Login_invalid_credentials_witness:
  "Login exampleSigner exampleUsers \<lparr>Email = ''nobody@example.com'', Password = ''password123''\<rparr>
     = Inl (Error ''invalid email or password'')
   \<and> Login exampleSigner exampleUsers \<lparr>Email = ''john.doe@example.com'', Password = ''wrongpassword''\<rparr>
     = Inl (Error ''invalid email or password'')"
proof -
  have v1: "Validate_login \<lparr>Email = ''nobody@example.com'', Password = ''password123''\<rparr> = None"
    by code_simp
  have v2: "Validate_login \<lparr>Email = ''john.doe@example.com'', Password = ''wrongpassword''\<rparr> = None"
    by code_simp
  have unknown: "users exampleUsers (Email \<lparr>Email = ''nobody@example.com'', Password = ''password123''\<rparr>) = None"
    by (simp add: exampleUsers_def)
  have wrong: "\<exists>user. users exampleUsers (Email \<lparr>Email = ''john.doe@example.com'', Password = ''wrongpassword''\<rparr>) = Some user
      \<and> user_Password user \<noteq> Password \<lparr>Email = ''john.doe@example.com'', Password = ''wrongpassword''\<rparr>"
    by (simp add: exampleUsers_def)
  from Login_invalid_credentials [OF v1 disjI1, OF unknown, of exampleSigner]
       Login_invalid_credentials [OF v2 disjI2, OF wrong, of exampleSigner]
  show ?thesis by simp
qed

section \<open>Facts about the list pipeline\<close>

lemma filterLoop_filter:
  "filterLoop unicodeLower f ts = filter (matchesFilter unicodeLower (Some f)) ts"
  by (induction ts) (auto simp: matchesFilter_def split: option.splits)

lemma applyFilters_filter:
  "applyFilters unicodeLower ts filt = filter (matchesFilter unicodeLower filt) ts"
  by (cases filt) (simp_all add: applyFilters_def filterLoop_filter matchesFilter_def)

lemma set_map_filter_keys: "set (List.map_filter f ks) = {t. \<exists>k \<in> set ks. f k = Some t}"
  by (induction ks) (auto split: option.splits)

lemma set_rangeTasks: "set keys = dom (tasks s) \<Longrightarrow> set (rangeTasks s keys) = ran (tasks s)"
  by (auto simp: rangeTasks_def set_map_filter_keys ran_def)

lemma set_filteredTasks:
  "enumerates keys s \<Longrightarrow>
   set (filteredTasks unicodeLower s keys userID filt) = ownedMatching unicodeLower s userID filt"
  by (auto simp: filteredTasks_def applyFilters_filter enumerates_def set_rangeTasks
      ownedMatching_def)

lemma length_filter_map_filter:
  "length (filter P (List.map_filter f ks)) = length (filter (\<lambda>k. \<exists>t. f k = Some t \<and> P t) ks)"
  by (induction ks) (auto split: option.splits)

lemma length_filteredTasks:
  assumes "enumerates keys s"
  shows "length (filteredTasks unicodeLower s keys userID filt)
         = card (matchingKeys unicodeLower s userID filt)"
proof -
  let ?Q = "\<lambda>k. \<exists>t. tasks s k = Some t \<and> UserID t = userID \<and> matchesFilter unicodeLower filt t"
  have "length (filteredTasks unicodeLower s keys userID filt) = length (filter ?Q keys)"
    by (simp add: filteredTasks_def applyFilters_filter rangeTasks_def length_filter_map_filter
        conj_commute)
  also have "\<dots> = card ({k. ?Q k} \<inter> set keys)"
    using assms by (simp add: distinct_length_filter enumerates_def)
  also have "{k. ?Q k} \<inter> set keys = matchingKeys unicodeLower s userID filt"
    using assms by (auto simp: matchingKeys_def enumerates_def)
  finally show ?thesis .
qed

lemma mset_keys:
  assumes "enumerates ks1 s" and "enumerates ks2 s"
  shows "mset ks1 = mset ks2"
proof -
  from assms have "distinct ks1" "distinct ks2" "set ks1 = set ks2"
    by (simp_all add: enumerates_def)
  then show ?thesis
    by (simp add: set_eq_iff_mset_eq_distinct)
qed

lemma mset_map_filter:
  "mset (List.map_filter f ks) = image_mset (the \<circ> f) (filter_mset (\<lambda>k. f k \<noteq> None) (mset ks))"
  by (simp add: List.map_filter_def)

lemma mset_filteredTasks:
  assumes "enumerates ks1 s" and "enumerates ks2 s"
  shows "mset (filteredTasks unicodeLower s ks1 userID filt)
         = mset (filteredTasks unicodeLower s ks2 userID filt)"
proof -
  have "mset (rangeTasks s ks1) = mset (rangeTasks s ks2)"
    unfolding rangeTasks_def mset_map_filter mset_keys [OF assms] ..
  then show ?thesis
    by (simp add: filteredTasks_def applyFilters_filter)
qed

lemma applySorting_resolved:
  "applySorting srt ts sortOpt = srt (sortLess (resolvedSort sortOpt)) ts"
  by (simp add: applySorting_def resolvedSort_def)

lemma mset_sortedTasks:
  "sortsBy srt \<Longrightarrow>
   mset (sortedTasks unicodeLower srt s keys userID filt sortOpt)
   = mset (filteredTasks unicodeLower s keys userID filt)"
  by (simp add: sortedTasks_def applySorting_resolved sortsBy_def)

lemma set_sortedTasks:
  assumes "sortsBy srt" and "enumerates keys s"
  shows "set (sortedTasks unicodeLower srt s keys userID filt sortOpt)
         = ownedMatching unicodeLower s userID filt"
  using mset_sortedTasks [OF assms(1), THEN mset_eq_setD] set_filteredTasks [OF assms(2)]
  by simp

lemma length_sortedTasks:
  assumes "sortsBy srt" and "enumerates keys s"
  shows "length (sortedTasks unicodeLower srt s keys userID filt sortOpt)
         = card (matchingKeys unicodeLower s userID filt)"
  using mset_sortedTasks [OF assms(1), THEN mset_eq_length] length_filteredTasks [OF assms(2)]
  by simp

section \<open>Facts about sorting\<close>

lemma weakOrder_sortLess: "weakOrder (sortLess so)"
  unfolding weakOrder_def sortLess_def by auto

lemma mset_insertLess: "mset (insertLess lt x ys) = add_mset x (mset ys)"
  by (induction ys) auto

lemma mset_insertionLoop: "mset (insertionLoop lt before xs) = mset before + mset xs"
  by (induction xs arbitrary: before) (auto simp: mset_insertLess)

lemma mset_insertionSortLessFunc: "mset (insertionSortLessFunc lt xs) = mset xs"
  by (simp add: insertionSortLessFunc_def mset_insertionLoop)

lemma set_insertLess: "set (insertLess lt x ys) = insert x (set ys)"
  by (induction ys) auto

lemma sorted_insertLess:
  assumes "weakOrder lt" and "sorted_wrt (\<lambda>a b. \<not> lt a b) ys"
  shows "sorted_wrt (\<lambda>a b. \<not> lt a b) (insertLess lt x ys)"
  using assms(2)
proof (induction ys)
  case Nil
  then show ?case by simp
next
  case (Cons y ys)
  from assms(1) have asym: "\<And>a b. lt a b \<Longrightarrow> \<not> lt b a"
    and trans: "\<And>a b c. \<not> lt b a \<Longrightarrow> \<not> lt c b \<Longrightarrow> \<not> lt c a"
    unfolding weakOrder_def by blast+
  show ?case
  proof (cases "lt x y")
    case True
    with Cons asym show ?thesis
      by (auto simp: set_insertLess)
  next
    case False
    with Cons trans show ?thesis
      by auto
  qed
qed

lemma sorted_insertionLoop:
  assumes "weakOrder lt" and "sorted_wrt (\<lambda>a b. \<not> lt a b) before"
  shows "sorted_wrt (\<lambda>a b. \<not> lt b a) (insertionLoop lt before xs)"
  using assms(2)
proof (induction xs arbitrary: before)
  case Nil
  then show ?case by (simp add: sorted_wrt_rev)
next
  case (Cons x xs)
  then show ?case by (simp add: sorted_insertLess [OF assms(1)])
qed

lemma sortsBy_insertionSortLessFunc: "sortsBy insertionSortLessFunc"
  unfolding sortsBy_def
proof (intro allI conjI impI)
  fix lt :: "'a \<Rightarrow> 'a \<Rightarrow> bool" and xs
  show "mset (insertionSortLessFunc lt xs) = mset xs"
    by (rule mset_insertionSortLessFunc)
  assume "weakOrder lt"
  then show "sorted_wrt (\<lambda>a b. \<not> lt b a) (insertionSortLessFunc lt xs)"
    by (simp add: insertionSortLessFunc_def sorted_insertionLoop)
qed

text \<open>The insertion sort is stable: elements that tie pairwise keep their order.\<close>

lemma filter_insertLess:
  assumes "\<forall>a b. P a \<longrightarrow> P b \<longrightarrow> \<not> lt a b"
  shows "filter P (insertLess lt x ys) = filter P [x] @ filter P ys"
  using assms by (induction ys) auto

lemma filter_insertionLoop:
  assumes "\<forall>a b. P a \<longrightarrow> P b \<longrightarrow> \<not> lt a b"
  shows "filter P (insertionLoop lt before xs) = rev (filter P before) @ filter P xs"
proof (induction xs arbitrary: before)
  case Nil
  show ?case by (simp add: rev_filter)
next
  case (Cons x xs)
  show ?case
    by (simp add: Cons.IH filter_insertLess [OF assms])
qed

lemma insertionSortLessFunc_stable:
  assumes "\<forall>a b. P a \<longrightarrow> P b \<longrightarrow> tied lt a b"
  shows "filter P (insertionSortLessFunc lt xs) = filter P xs"
proof -
  from assms have "\<forall>a b. P a \<longrightarrow> P b \<longrightarrow> \<not> lt a b"
    by (simp add: tied_def)
  then show ?thesis
    by (simp add: insertionSortLessFunc_def filter_insertionLoop)
qed

lemma sorted_wrt_unique:
  assumes "mset ys = mset zs"
      and "sorted_wrt (\<lambda>a b. \<not> lt b a) ys" and "sorted_wrt (\<lambda>a b. \<not> lt b a) zs"
      and "\<forall>a \<in> set ys. \<forall>b \<in> set ys. a \<noteq> b \<longrightarrow> \<not> tied lt a b"
  shows "ys = zs"
  using assms
proof (induction ys arbitrary: zs)
  case Nil
  then show ?case by simp
next
  case (Cons y ys)
  from Cons.prems(1) obtain z zs' where zs: "zs = z # zs'"
    by (cases zs) auto
  have "y = z"
  proof (rule ccontr)
    assume neq: "y \<noteq> z"
    from Cons.prems(1) have "set (y # ys) = set zs"
      by (rule mset_eq_setD)
    with neq zs have yz: "y \<in> set zs'" and zy: "z \<in> set ys"
      by auto
    from yz Cons.prems(3) zs have "\<not> lt y z" by simp
    moreover from zy Cons.prems(2) have "\<not> lt z y" by simp
    moreover from zy Cons.prems(4) neq have "\<not> tied lt y z" by simp
    ultimately show False by (simp add: tied_def)
  qed
  moreover from this Cons.prems(1) zs have "mset ys = mset zs'"
    by simp
  with Cons.IH [of zs'] Cons.prems(2,3,4) zs have "ys = zs'"
    by simp
  ultimately show ?case using zs by simp
qed

lemma sortedTasks_unique:
  assumes srt: "sortsBy srt" and k1: "enumerates ks1 s" and k2: "enumerates ks2 s"
      and ties: "\<forall>a \<in> ownedMatching unicodeLower s userID filt.
                 \<forall>b \<in> ownedMatching unicodeLower s userID filt.
                   a \<noteq> b \<longrightarrow> \<not> tied (sortLess (resolvedSort sortOpt)) a b"
  shows "sortedTasks unicodeLower srt s ks1 userID filt sortOpt
         = sortedTasks unicodeLower srt s ks2 userID filt sortOpt"
proof (rule sorted_wrt_unique [where lt = "sortLess (resolvedSort sortOpt)"])
  show "mset (sortedTasks unicodeLower srt s ks1 userID filt sortOpt)
        = mset (sortedTasks unicodeLower srt s ks2 userID filt sortOpt)"
    by (simp add: mset_sortedTasks [OF srt] mset_filteredTasks [OF k1 k2])
  from srt weakOrder_sortLess
  show "sorted_wrt (\<lambda>a b. \<not> sortLess (resolvedSort sortOpt) b a)
          (sortedTasks unicodeLower srt s ks1 userID filt sortOpt)"
       "sorted_wrt (\<lambda>a b. \<not> sortLess (resolvedSort sortOpt) b a)
          (sortedTasks unicodeLower srt s ks2 userID filt sortOpt)"
    by (simp_all add: sortedTasks_def applySorting_resolved sortsBy_def)
  from ties show "\<forall>a \<in> set (sortedTasks unicodeLower srt s ks1 userID filt sortOpt).
      \<forall>b \<in> set (sortedTasks unicodeLower srt s ks1 userID filt sortOpt).
        a \<noteq> b \<longrightarrow> \<not> tied (sortLess (resolvedSort sortOpt)) a b"
    by (simp add: set_sortedTasks [OF srt k1])
qed

section \<open>Facts about the page window\<close>

lemma sint_word_of_int_64:
  "- (2 ^ 63) \<le> k \<Longrightarrow> k < 2 ^ 63 \<Longrightarrow> sint (word_of_int k :: 64 word) = k"
  by (simp add: sint_sbintrunc' signed_take_bit_int_eq_self)

lemma sint_len: "int (length xs) < 2 ^ 63 \<Longrightarrow> sint (len xs) = int (length xs)"
proof -
  assume "int (length xs) < 2 ^ 63"
  then have "sint (word_of_int (int (length xs)) :: 64 word) = int (length xs)"
    by (intro sint_word_of_int_64) simp_all
  then show ?thesis
    by (simp add: len_def)
qed

lemma sdiv_nonneg: "0 \<le> a \<Longrightarrow> 0 < b \<Longrightarrow> a sdiv b = a div (b :: int)"
  by (cases "a = 0") (simp_all add: signed_divide_int_def)

lemma ceil_div:
  fixes n L :: int
  assumes "0 \<le> n" and "1 \<le> L"
  shows "n \<le> ((n + L - 1) div L) * L" and "((n + L - 1) div L - 1) * L < n"
    and "((n + L - 1) div L = 0) = (n = 0)"
proof -
  let ?q = "(n + L - 1) div L" and ?r = "(n + L - 1) mod L"
  have eq: "?q * L + ?r = n + L - 1"
    by simp
  have r: "0 \<le> ?r" "?r < L"
    using assms by simp_all
  from eq r show "n \<le> ?q * L"
    by linarith
  have "(?q - 1) * L = ?q * L - L"
    by (simp add: algebra_simps)
  with eq r show lt: "(?q - 1) * L < n"
    by linarith
  show "(?q = 0) = (n = 0)"
  proof
    assume "?q = 0" with lt assms eq r show "n = 0" by simp
  next
    assume "n = 0" with assms show "?q = 0" by simp
  qed
qed

lemma ListTasks_sortedTasks:
  "ListTasks unicodeLower srt s keys filt sortOpt page limit userID =
     (let xs = sortedTasks unicodeLower srt s keys userID filt sortOpt in
      case int64_div (len xs + limit - 1) limit of
        Inl panic \<Rightarrow> Inl panic
      | Inr totalPages \<Rightarrow>
          if sint (len xs) \<le> sint ((page - 1) * limit)
          then Inr ([], \<lparr>Page = page, Limit = limit, Total = len xs, TotalPages = totalPages\<rparr>)
          else (case slice_expr xs ((page - 1) * limit)
                       (if sint (len xs) < sint ((page - 1) * limit + limit) then len xs
                        else (page - 1) * limit + limit) of
                  Inl panic \<Rightarrow> Inl panic
                | Inr paginatedTasks \<Rightarrow>
                    Inr (paginatedTasks,
                         \<lparr>Page = page, Limit = limit, Total = len xs, TotalPages = totalPages\<rparr>)))"
  unfolding ListTasks_def sortedTasks_def filteredTasks_def Let_def by (rule refl)

lemma ListTasks_items_subset:
  assumes "ListTasks unicodeLower srt s keys filt sortOpt page limit userID = Inr (items, info)"
  shows "set items \<subseteq> set (sortedTasks unicodeLower srt s keys userID filt sortOpt)"
    and "Total info = len (sortedTasks unicodeLower srt s keys userID filt sortOpt)"
    and "Page info = page" and "Limit info = limit"
proof -
  let ?xs = "sortedTasks unicodeLower srt s keys userID filt sortOpt"
  from assms have
    "items = [] \<or> (\<exists>lo hi. slice_expr ?xs lo hi = Inr items)"
    by (auto simp: ListTasks_sortedTasks Let_def split: sum.splits if_splits)
  then show "set items \<subseteq> set ?xs"
    by (auto simp: slice_expr_def split: if_splits dest: in_set_takeD in_set_dropD)
  from assms show "Total info = len ?xs" "Page info = page" "Limit info = limit"
    by (auto simp: ListTasks_sortedTasks Let_def split: sum.splits if_splits)
qed

lemma ListTasks_first_page_all:
  assumes res: "ListTasks unicodeLower srt s keys filt sortOpt 1 limit userID = Inr (items, info)"
      and n: "int (length (sortedTasks unicodeLower srt s keys userID filt sortOpt)) \<le> sint limit"
  shows "items = sortedTasks unicodeLower srt s keys userID filt sortOpt"
proof -
  let ?xs = "sortedTasks unicodeLower srt s keys userID filt sortOpt"
  from n sint_less [of limit] have small: "int (length ?xs) < 2 ^ 63"
    by simp
  then have len: "sint (len ?xs) = int (length ?xs)"
    by (rule sint_len)
  show ?thesis
  proof (cases "?xs = []")
    case True
    with res len show ?thesis
      by (auto simp: ListTasks_sortedTasks Let_def slice_expr_def split: sum.splits if_splits)
  next
    case False
    then have pos: "0 < int (length ?xs)"
      by simp
    have hi: "sint (if sint (len ?xs) < sint limit then len ?xs else limit) = int (length ?xs)"
      using n len by auto
    have "slice_expr ?xs 0 (if sint (len ?xs) < sint limit then len ?xs else limit) = Inr ?xs"
      unfolding slice_expr_def hi by simp
    with res pos len show ?thesis
      by (auto simp: ListTasks_sortedTasks Let_def split: sum.splits if_splits)
  qed
qed

lemma enumerates_example:
  "enumerates [1, 2, 3, 4] exampleStore" "enumerates [2, 1, 3, 4] exampleStore"
  "enumerates [4, 3, 2, 1] exampleStore"
  by (auto simp: enumerates_def exampleStore_def)

section \<open>The query engine\<close>

text \<open>
  The page window, where the arithmetic of \<open>ListTasks\<close> stays inside int64. For a page
  and a size of at least 1, with \<open>page * size\<close> and \<open>total + size\<close> representable, the
  result carries the total of the requester's matching tasks, \<open>(total + size - 1) div size\<close>
  pages, and the items from index \<open>(page - 1) * size\<close> on, at most \<open>size\<close> of them, of the
  sorted sequence; \<open>take\<close> and \<open>drop\<close> clip the window to the sequence, so a page past
  the end is empty. \<open>ceil_div\<close> above says that the page count is the ceiling of
  \<open>total / size\<close>, and 0 exactly when the total is 0.
\<close>

lemma ListTasks_window:
  assumes srt: "sortsBy srt" and keys: "enumerates keys s"
      and P: "1 \<le> sint page" and L: "1 \<le> sint limit"
      and tot: "int (card (matchingKeys unicodeLower s userID filt)) + sint limit \<le> 2 ^ 63"
      and win: "sint page * sint limit < 2 ^ 63"
  shows "ListTasks unicodeLower srt s keys filt sortOpt page limit userID
         = Inr (take (nat (sint limit)) (drop (nat ((sint page - 1) * sint limit))
                  (sortedTasks unicodeLower srt s keys userID filt sortOpt)),
                \<lparr>Page = page, Limit = limit,
                 Total = of_nat (card (matchingKeys unicodeLower s userID filt)),
                 TotalPages = word_of_int
                   ((int (card (matchingKeys unicodeLower s userID filt)) + sint limit - 1)
                      div sint limit)\<rparr>)"
proof -
  let ?xs = "sortedTasks unicodeLower srt s keys userID filt sortOpt"
  let ?n = "int (length ?xs)" and ?P = "sint page" and ?L = "sint limit"
  have card: "card (matchingKeys unicodeLower s userID filt) = length ?xs"
    by (simp add: length_sortedTasks [OF srt keys])
  have n: "sint (len ?xs) = ?n"
    using tot L unfolding card by (intro sint_len) simp
  have lim0: "limit \<noteq> 0"
    using L by auto
  have "len ?xs + limit - 1 = word_of_int (?n + ?L - 1)"
    by (simp add: len_def)
  moreover have "sint (word_of_int (?n + ?L - 1) :: 64 word) = ?n + ?L - 1"
    using tot L unfolding card by (intro sint_word_of_int_64) simp_all
  ultimately have ssum: "sint (len ?xs + limit - 1) = ?n + ?L - 1"
    by simp
  have nonneg: "0 \<le> (?P - 1) * ?L"
    using P L by simp
  have le: "(?P - 1) * ?L + ?L = ?P * ?L"
    by (simp add: algebra_simps)
  have "(page - 1) * limit = word_of_int ((?P - 1) * ?L)"
    by simp
  moreover have "sint (word_of_int ((?P - 1) * ?L) :: 64 word) = (?P - 1) * ?L"
    using nonneg le win L by (intro sint_word_of_int_64) simp_all
  ultimately have sstart: "sint ((page - 1) * limit) = (?P - 1) * ?L"
    by simp
  have "(page - 1) * limit + limit = page * limit"
    by (simp add: algebra_simps)
  moreover have "0 \<le> ?P * ?L"
    using P L by simp
  then have "sint (page * limit) = ?P * ?L"
    using win by (simp add: sint_word_mult signed_take_bit_int_eq_self)
  ultimately have send: "sint ((page - 1) * limit + limit) = ?P * ?L"
    by simp
  have tp: "int64_div (len ?xs + limit - 1) limit = Inr (word_of_int ((?n + ?L - 1) div ?L))"
    using lim0 L by (simp add: int64_div_def ssum sdiv_nonneg)
  have main: "ListTasks unicodeLower srt s keys filt sortOpt page limit userID
         = Inr (take (nat ?L) (drop (nat ((?P - 1) * ?L)) ?xs),
                \<lparr>Page = page, Limit = limit, Total = len ?xs,
                 TotalPages = word_of_int ((?n + ?L - 1) div ?L)\<rparr>)"
  proof (cases "?n \<le> (?P - 1) * ?L")
    case True
    then have "drop (nat ((?P - 1) * ?L)) ?xs = []"
      by simp
    with True show ?thesis
      unfolding ListTasks_sortedTasks Let_def by (simp add: tp n sstart)
  next
    case False
    show ?thesis
    proof (cases "?n < ?P * ?L")
      case True
      have "slice_expr ?xs ((page - 1) * limit) (len ?xs)
            = Inr (take (length ?xs - nat ((?P - 1) * ?L)) (drop (nat ((?P - 1) * ?L)) ?xs))"
        using False nonneg by (simp add: slice_expr_def n sstart)
      moreover have "take (length ?xs - nat ((?P - 1) * ?L)) (drop (nat ((?P - 1) * ?L)) ?xs)
             = take (nat ?L) (drop (nat ((?P - 1) * ?L)) ?xs)"
        using True le nonneg L by simp
      ultimately show ?thesis
        using False True unfolding ListTasks_sortedTasks Let_def
        by (simp add: tp n sstart send)
    next
      case ge: False
      have "nat (?P * ?L) - nat ((?P - 1) * ?L) = nat ?L"
        using le nonneg L by linarith
      then have "slice_expr ?xs ((page - 1) * limit) ((page - 1) * limit + limit)
            = Inr (take (nat ?L) (drop (nat ((?P - 1) * ?L)) ?xs))"
        using False ge nonneg le L by (simp add: slice_expr_def sstart send)
      then show ?thesis
        using False ge unfolding ListTasks_sortedTasks Let_def
        by (simp add: tp n sstart send)
    qed
  qed
  show ?thesis
    unfolding card using main by (simp add: len_def)
qed

lemma ListTasks_pages_example:
  assumes srt: "sortsBy srt" and keys: "enumerates keys s"
      and five: "card (matchingKeys unicodeLower s userID filt) = 5"
      and page: "page \<in> {1, 2, 3, 4}"
  shows "\<exists>items info.
           ListTasks unicodeLower srt s keys filt sortOpt page 2 userID = Inr (items, info)
           \<and> length items = (if page = 1 \<or> page = 2 then 2 else if page = 3 then 1 else 0)
           \<and> Total info = 5 \<and> TotalPages info = 3"
proof -
  have n: "length (sortedTasks unicodeLower srt s keys userID filt sortOpt) = 5"
    using length_sortedTasks [OF srt keys] five by simp
  from page consider "page = 1" | "page = 2" | "page = 3" | "page = 4"
    by auto
  then show ?thesis
  proof cases
    case 1
    with ListTasks_window [OF srt keys, of 1 2 unicodeLower userID filt sortOpt] five n
    show ?thesis by simp
  next
    case 2
    with ListTasks_window [OF srt keys, of 2 2 unicodeLower userID filt sortOpt] five n
    show ?thesis by simp
  next
    case 3
    with ListTasks_window [OF srt keys, of 3 2 unicodeLower userID filt sortOpt] five n
    show ?thesis by simp
  next
    case 4
    with ListTasks_window [OF srt keys, of 4 2 unicodeLower userID filt sortOpt] five n
    show ?thesis by simp
  qed
qed

text \<open>
  Outside that range the product \<open>(page - 1) * limit\<close> wraps around. At the largest page
  an int holds and the default limit 10 the start index is -20 on every store.
\<close>

lemma ListTasks_largest_page_panics:
  assumes "int (length (sortedTasks unicodeLower srt s keys userID filt sortOpt)) < 2 ^ 63"
  shows "ListTasks unicodeLower srt s keys filt sortOpt 9223372036854775807 10 userID
         = Inl (Panic ''slice bounds out of range'')"
proof -
  let ?xs = "sortedTasks unicodeLower srt s keys userID filt sortOpt"
  have n: "sint (len ?xs) = int (length ?xs)"
    using assms by (rule sint_len)
  have start: "sint ((9223372036854775807 - 1) * 10 :: 64 word) = - 20"
    by simp
  have stop: "sint ((9223372036854775807 - 1) * 10 + 10 :: 64 word) = - 10"
    by simp
  have "slice_expr ?xs ((9223372036854775807 - 1) * 10) ((9223372036854775807 - 1) * 10 + 10)
        = Inl (Panic ''slice bounds out of range'')"
    unfolding slice_expr_def start stop by simp
  then show ?thesis
    unfolding ListTasks_sortedTasks Let_def n start stop
    by (simp add: int64_div_def)
qed

text \<open>
  Claim C1. For every list call with a page and a size of at least 1 the result carries
  the total of the requester's matching tasks, the ceiling of \<open>total / size\<close> as page
  count, and the window of the sorted sequence that starts at \<open>(page - 1) * size\<close>; a page
  past the end is empty and keeps its metadata. The code does so while its arithmetic stays
  inside int64 (\<open>ListTasks_window\<close>), and not beyond: the list endpoint passes on any
  positive page that fits an int, so the query \<open>page=9223372036854775807\<close> reaches
  \<open>ListTasks\<close> with the default limit 10, the start index wraps to -20, the test
  \<open>start >= len(sortedTasks)\<close> fails, and the slice expression panics where the claim
  has an empty page.
\<close>

theorem ListTasks_page_overflow:
  "parsePagination ''9223372036854775807'' [] = (9223372036854775807, 10)
   \<and> ListTasks asciiOnly insertionSortLessFunc exampleStore [1, 2, 3, 4] None None
        9223372036854775807 10 john
      = Inl (Panic ''slice bounds out of range'')"
  by (simp add: parsePagination_def Atoi_def isDigit_def ListTasks_def rangeTasks_def
      List.map_filter_simps exampleStore_def taskAlpha_def taskBeta_def taskGamma_def
      taskPlan_def john_def jane_def applyFilters_def applySorting_def
      insertionSortLessFunc_def sortLess_def len_def int64_div_def slice_expr_def
      signed_divide_int_def)

text \<open>
  Claim C6. Whatever the page, \<open>ListTasks\<close> returns only tasks of the requester that
  match the filter: with a status filter only tasks of that status, with a search string
  only tasks whose title contains it, both in lower case. The matching tasks are a subset
  of the requester's tasks, which are what no filter selects. When the first page is large
  enough for every matching task, the items are exactly the requester's matching tasks,
  and on every page the total counts them all.
  The call returns such a result whenever its page arithmetic stays inside int64.
\<close>

theorem ListTasks_owned_and_matching:
  assumes srt: "sortsBy srt" and keys: "enumerates keys s"
  shows "(\<forall>items info.
            ListTasks unicodeLower srt s keys filt sortOpt page limit userID = Inr (items, info)
            \<longrightarrow> set items \<subseteq> ownedMatching unicodeLower s userID filt
              \<and> (\<forall>task \<in> set items.
                    UserID task = userID \<and> matchesFilter unicodeLower filt task)
              \<and> Total info = of_nat (card (matchingKeys unicodeLower s userID filt))
              \<and> (page = 1 \<and> int (card (matchingKeys unicodeLower s userID filt)) \<le> sint limit
                   \<longrightarrow> set items = ownedMatching unicodeLower s userID filt))
         \<and> ownedMatching unicodeLower s userID filt \<subseteq> ownedMatching unicodeLower s userID None
         \<and> ownedMatching unicodeLower s userID None
             = {task \<in> ran (tasks s). UserID task = userID}
         \<and> (1 \<le> sint page \<and> 1 \<le> sint limit
              \<and> int (card (matchingKeys unicodeLower s userID filt)) + sint limit \<le> 2 ^ 63
              \<and> sint page * sint limit < 2 ^ 63
              \<longrightarrow> (\<exists>items info.
                    ListTasks unicodeLower srt s keys filt sortOpt page limit userID
                    = Inr (items, info)))"
proof (intro conjI allI impI)
  let ?xs = "sortedTasks unicodeLower srt s keys userID filt sortOpt"
  have xs: "set ?xs = ownedMatching unicodeLower s userID filt"
    by (rule set_sortedTasks [OF srt keys])
  show "ownedMatching unicodeLower s userID filt \<subseteq> ownedMatching unicodeLower s userID None"
    by (auto simp: ownedMatching_def matchesFilter_def)
  show "ownedMatching unicodeLower s userID None = {task \<in> ran (tasks s). UserID task = userID}"
    by (simp add: ownedMatching_def matchesFilter_def)
  { fix items info
    assume res: "ListTasks unicodeLower srt s keys filt sortOpt page limit userID
                 = Inr (items, info)"
    from ListTasks_items_subset(1) [OF res] xs
    show sub: "set items \<subseteq> ownedMatching unicodeLower s userID filt"
      by simp
    then show "\<forall>task \<in> set items. UserID task = userID \<and> matchesFilter unicodeLower filt task"
      by (auto simp: ownedMatching_def)
    from ListTasks_items_subset(2) [OF res]
    show "Total info = of_nat (card (matchingKeys unicodeLower s userID filt))"
      by (simp add: len_def length_sortedTasks [OF srt keys])
    assume all: "page = 1 \<and> int (card (matchingKeys unicodeLower s userID filt)) \<le> sint limit"
    then have "int (length ?xs) \<le> sint limit"
      by (simp add: length_sortedTasks [OF srt keys])
    with res all have "items = ?xs"
      by (intro ListTasks_first_page_all [where info = info]) simp_all
    with xs show "set items = ownedMatching unicodeLower s userID filt"
      by simp }
  assume "1 \<le> sint page \<and> 1 \<le> sint limit
      \<and> int (card (matchingKeys unicodeLower s userID filt)) + sint limit \<le> 2 ^ 63
      \<and> sint page * sint limit < 2 ^ 63"
  then show "\<exists>items info.
      ListTasks unicodeLower srt s keys filt sortOpt page limit userID = Inr (items, info)"
    using ListTasks_window [OF srt keys, of page limit unicodeLower userID filt sortOpt]
    by simp
qed

lemma example_search_run:
  "ListTasks asciiOnly insertionSortLessFunc exampleStore [1, 2, 3, 4]
       (Some \<lparr>filter_Status = None, filter_Search = ''ALPHA''\<rparr>) None 1 10 john
     = Inr ([taskAlpha], \<lparr>Page = 1, Limit = 10, Total = 1, TotalPages = 1\<rparr>)"
  by code_simp

theorem ListTasks_owned_and_matching_witness:
  "ListTasks asciiOnly insertionSortLessFunc exampleStore [1, 2, 3, 4]
       (Some \<lparr>filter_Status = None, filter_Search = ''ALPHA''\<rparr>) None 1 10 john
     = Inr ([taskAlpha], \<lparr>Page = 1, Limit = 10, Total = 1, TotalPages = 1\<rparr>)
   \<and> set [taskAlpha]
       \<subseteq> ownedMatching asciiOnly exampleStore john
            (Some \<lparr>filter_Status = None, filter_Search = ''ALPHA''\<rparr>)
   \<and> ownedMatching asciiOnly exampleStore john None
       = {task \<in> ran (tasks exampleStore). UserID task = john}"
  using ListTasks_owned_and_matching [OF sortsBy_insertionSortLessFunc enumerates_example(1),
      of asciiOnly "Some \<lparr>filter_Status = None, filter_Search = ''ALPHA''\<rparr>" None 1 10 john]
    example_search_run
  by blast

text \<open>
  Claim C2, as the code has it. The sorted sequence is ordered by the resolved key: no
  task is less than one before it. With the insertion sort that \<^verbatim>\<open>sort.Slice\<close> runs on a
  short slice, tasks that tie keep the order in which the iteration over the store produced
  them in that call. Two calls with the same parameters over the same store, each with its
  own iteration order, return the same result when no two of the requester's matching
  tasks tie under the sort key.
\<close>

theorem ListTasks_order_up_to_ties:
  assumes srt: "sortsBy srt" and k1: "enumerates ks1 s" and k2: "enumerates ks2 s"
  shows "sorted_wrt (\<lambda>a b. \<not> sortLess (resolvedSort sortOpt) b a)
           (sortedTasks unicodeLower srt s ks1 userID filt sortOpt)
         \<and> (\<forall>P. (\<forall>a b. P a \<longrightarrow> P b \<longrightarrow> tied (sortLess (resolvedSort sortOpt)) a b) \<longrightarrow>
               filter P (sortedTasks unicodeLower insertionSortLessFunc s ks1 userID filt sortOpt)
               = filter P (filteredTasks unicodeLower s ks1 userID filt))
         \<and> ((\<forall>a \<in> ownedMatching unicodeLower s userID filt.
               \<forall>b \<in> ownedMatching unicodeLower s userID filt.
                 a \<noteq> b \<longrightarrow> \<not> tied (sortLess (resolvedSort sortOpt)) a b) \<longrightarrow>
              ListTasks unicodeLower srt s ks1 filt sortOpt page limit userID
              = ListTasks unicodeLower srt s ks2 filt sortOpt page limit userID)"
proof (intro conjI allI impI)
  from srt weakOrder_sortLess
  show "sorted_wrt (\<lambda>a b. \<not> sortLess (resolvedSort sortOpt) b a)
          (sortedTasks unicodeLower srt s ks1 userID filt sortOpt)"
    by (simp add: sortedTasks_def applySorting_resolved sortsBy_def)
next
  fix P :: "Task \<Rightarrow> bool"
  assume "\<forall>a b. P a \<longrightarrow> P b \<longrightarrow> tied (sortLess (resolvedSort sortOpt)) a b"
  then show "filter P (sortedTasks unicodeLower insertionSortLessFunc s ks1 userID filt sortOpt)
             = filter P (filteredTasks unicodeLower s ks1 userID filt)"
    by (simp add: sortedTasks_def applySorting_resolved insertionSortLessFunc_stable)
next
  assume "\<forall>a \<in> ownedMatching unicodeLower s userID filt.
            \<forall>b \<in> ownedMatching unicodeLower s userID filt.
              a \<noteq> b \<longrightarrow> \<not> tied (sortLess (resolvedSort sortOpt)) a b"
  then have "sortedTasks unicodeLower srt s ks1 userID filt sortOpt
             = sortedTasks unicodeLower srt s ks2 userID filt sortOpt"
    by (rule sortedTasks_unique [OF srt k1 k2])
  then show "ListTasks unicodeLower srt s ks1 filt sortOpt page limit userID
             = ListTasks unicodeLower srt s ks2 filt sortOpt page limit userID"
    by (simp add: ListTasks_sortedTasks)
qed

lemma example_owned: "ownedMatching asciiOnly exampleStore john None = {taskAlpha, taskBeta, taskGamma}"
proof -
  have "filteredTasks asciiOnly exampleStore [1, 2, 3, 4] john None = [taskAlpha, taskBeta, taskGamma]"
    by code_simp
  with set_filteredTasks [OF enumerates_example(1), of asciiOnly john None] show ?thesis
    by simp
qed

theorem ListTasks_order_up_to_ties_witness:
  "ListTasks asciiOnly insertionSortLessFunc exampleStore [1, 2, 3, 4] None
        (Some \<lparr>Field = ''title'', Order = ''asc''\<rparr>) 1 10 john
   = ListTasks asciiOnly insertionSortLessFunc exampleStore [4, 3, 2, 1] None
        (Some \<lparr>Field = ''title'', Order = ''asc''\<rparr>) 1 10 john
   \<and> filter (\<lambda>task. Status task = StatusPending)
        (sortedTasks asciiOnly insertionSortLessFunc exampleStore [2, 1, 3, 4] john None
           (Some \<lparr>Field = ''status'', Order = ''asc''\<rparr>))
      = filter (\<lambda>task. Status task = StatusPending)
          (filteredTasks asciiOnly exampleStore [2, 1, 3, 4] john None)"
proof -
  have noties: "\<forall>a \<in> ownedMatching asciiOnly exampleStore john None.
      \<forall>b \<in> ownedMatching asciiOnly exampleStore john None.
        a \<noteq> b \<longrightarrow> \<not> tied (sortLess (resolvedSort (Some \<lparr>Field = ''title'', Order = ''asc''\<rparr>))) a b"
    by (simp add: example_owned tied_def sortLess_def resolvedSort_def taskAlpha_def taskBeta_def
        taskGamma_def less_char_def)
  have ties: "\<forall>a b. Status a = StatusPending \<longrightarrow> Status b = StatusPending \<longrightarrow>
      tied (sortLess (resolvedSort (Some \<lparr>Field = ''status'', Order = ''asc''\<rparr>))) a b"
    by (simp add: tied_def sortLess_def resolvedSort_def)
  note thm1 = ListTasks_order_up_to_ties [OF sortsBy_insertionSortLessFunc enumerates_example(1)
      enumerates_example(3), of "Some \<lparr>Field = ''title'', Order = ''asc''\<rparr>" asciiOnly john None 1 10]
  note thm2 = ListTasks_order_up_to_ties [OF sortsBy_insertionSortLessFunc enumerates_example(2)
      enumerates_example(2), of "Some \<lparr>Field = ''status'', Order = ''asc''\<rparr>" asciiOnly john None 1 10]
  note same = thm1 [THEN conjunct2, THEN conjunct2, THEN mp, OF noties]
  have "filter (\<lambda>task. Status task = StatusPending)
        (sortedTasks asciiOnly insertionSortLessFunc exampleStore [2, 1, 3, 4] john None
           (Some \<lparr>Field = ''status'', Order = ''asc''\<rparr>))
      = filter (\<lambda>task. Status task = StatusPending)
          (filteredTasks asciiOnly exampleStore [2, 1, 3, 4] john None)"
    using ties
    by (rule thm2 [THEN conjunct2, THEN conjunct1, THEN spec, THEN mp])
  with same show ?thesis by (rule conjI)
qed

text \<open>
  The claim as stated has two calls over the unchanged store return identical sequences
  always. Go does not fix the order in which a \<^verbatim>\<open>range\<close> loop visits a map, and nothing
  breaks a tie: the two pending tasks of the example come back in the order of the
  iteration, which differs between the two calls.
\<close>

theorem ListTasks_order_counterexample:
  "enumerates [1, 2, 3, 4] exampleStore \<and> enumerates [2, 1, 3, 4] exampleStore
   \<and> ListTasks asciiOnly insertionSortLessFunc exampleStore [1, 2, 3, 4] None
        (Some \<lparr>Field = ''status'', Order = ''asc''\<rparr>) 1 10 john
      = Inr ([taskAlpha, taskBeta, taskGamma],
             \<lparr>Page = 1, Limit = 10, Total = 3, TotalPages = 1\<rparr>)
   \<and> ListTasks asciiOnly insertionSortLessFunc exampleStore [2, 1, 3, 4] None
        (Some \<lparr>Field = ''status'', Order = ''asc''\<rparr>) 1 10 john
      = Inr ([taskBeta, taskAlpha, taskGamma],
             \<lparr>Page = 1, Limit = 10, Total = 3, TotalPages = 1\<rparr>)
   \<and> [taskAlpha, taskBeta, taskGamma] \<noteq> [taskBeta, taskAlpha, taskGamma]"
proof -
  have "ListTasks asciiOnly insertionSortLessFunc exampleStore [1, 2, 3, 4] None
        (Some \<lparr>Field = ''status'', Order = ''asc''\<rparr>) 1 10 john
      = Inr ([taskAlpha, taskBeta, taskGamma],
             \<lparr>Page = 1, Limit = 10, Total = 3, TotalPages = 1\<rparr>)"
    by code_simp
  moreover have "ListTasks asciiOnly insertionSortLessFunc exampleStore [2, 1, 3, 4] None
        (Some \<lparr>Field = ''status'', Order = ''asc''\<rparr>) 1 10 john
      = Inr ([taskBeta, taskAlpha, taskGamma],
             \<lparr>Page = 1, Limit = 10, Total = 3, TotalPages = 1\<rparr>)"
    by code_simp
  moreover have "[taskAlpha, taskBeta, taskGamma] \<noteq> [taskBeta, taskAlpha, taskGamma]"
    by (simp add: taskAlpha_def taskBeta_def)
  ultimately show ?thesis
    using enumerates_example by blast
qed

end
